theory Spec2Isabelle
  imports Complex_Main "HOL-Library.Multiset"
begin

section \<open>Data model (src/charity-selector/src/types.ts)\<close>

text \<open>
  The CSV reader delivers every column as a string. A column that is missing from a row is
  \<open>undefined\<close> in the source; in every test the code makes on a charity (\<open>!c.id\<close>,
  \<open>c.featured === 'STATE'\<close>, \<open>c.state === userProfile.state\<close> with a non-empty profile
  state, \<open>c.category === category\<close>) \<open>undefined\<close> and the empty string behave alike, so a
  missing column is the empty string here.

  The fields \<open>id\<close>, \<open>name\<close> and \<open>state\<close> occur in three interfaces; they carry a prefix
  (\<open>c_\<close> charity, \<open>r_\<close> raw profile, \<open>p_\<close> parsed profile).
\<close>

record charity =
  c_id :: string
  c_name :: string
  c_state :: string
  category :: string
  featured :: string

record raw_user_profile =
  r_id :: string
  r_name :: string
  r_state :: string
  r_isMarried :: string
  r_hasChildren :: string
  r_hasPets :: string
  r_age :: string

text \<open>
  \<open>UserProfile.age\<close> (\<open>parseInt(rawProfile.age, 10) || 0\<close>) is a floating-point number
  that no function of the repository reads; the parsed profile keeps the other six fields.
\<close>

record user_profile =
  p_id :: string
  p_name :: string
  p_state :: string
  isMarried :: bool
  hasChildren :: bool
  hasPets :: bool

record selection_constraints =
  totalCharities :: int
  maxStateCharities :: int
  minAnimalCharitiesIfPets :: int

record tailoring_rule =
  applies :: "user_profile \<Rightarrow> bool"
  getMinCount :: "user_profile \<Rightarrow> int"
  getCategory :: "unit \<Rightarrow> string"

text \<open>
  What a \<open>throw\<close> or a rejected promise carries. Every \<open>throw\<close> and every \<open>reject\<close> that
  the repository writes out carries \<open>new Error(message)\<close>. The \<open>catch\<close> of
  \<open>selectCharities\<close> asks \<open>error instanceof Error\<close> of what it caught, and \<open>readCsvFile\<close>
  passes on one caught value as it is (\<open>reject(error)\<close>), so the other values JavaScript can
  throw are here too: an instance of a class derived from \<open>Error\<close>, with the name of the
  class and the message, and a value that is not an \<open>Error\<close>.
\<close>

datatype js_error = Error string | DerivedError string string | NonError

fun instanceof_Error :: "js_error \<Rightarrow> bool" where
  "instanceof_Error (Error m) = True"
| "instanceof_Error (DerivedError c m) = True"
| "instanceof_Error NonError = False"

text \<open>\<open>error.message\<close>. The source reads it of instances of \<open>Error\<close> only.\<close>

fun message :: "js_error \<Rightarrow> string" where
  "message (Error m) = m"
| "message (DerivedError c m) = m"
| "message NonError = []"

section \<open>Numbers in template literals\<close>

text \<open>\<open>`${n}`\<close> for an integer-valued number: its decimal digits, with a minus sign.\<close>

definition digit :: "nat \<Rightarrow> char" where
  "digit d = ''0123456789'' ! d"

fun show_nat :: "nat \<Rightarrow> string" where
  "show_nat n = (if n < 10 then [digit n] else show_nat (n div 10) @ [digit (n mod 10)])"

declare show_nat.simps [simp del]

definition show_int :: "int \<Rightarrow> string" where
  "show_int i = (if i < 0 then ''-'' @ show_nat (nat (- i)) else show_nat (nat i))"

section \<open>Randomness and effects\<close>

text \<open>
  \<open>Math.random()\<close> and lodash's \<open>shuffle\<close> are the two sources of randomness. An oracle
  fixes what each call returns, in call order: \<open>random_at orc k\<close> is the value of the
  \<open>k\<close>-th call of \<open>Math.random()\<close> made by the selector's own code, and
  \<open>shuffle_at orc k xs\<close> is what the \<open>k\<close>-th call of \<open>shuffle\<close> returns on \<open>xs\<close>.
  The effects record counts the calls made so far.
\<close>

record randomness =
  random_at :: "nat \<Rightarrow> real"
  shuffle_at :: "nat \<Rightarrow> charity list \<Rightarrow> charity list"

record effects =
  draws :: nat
  shuffles :: nat

definition no_effects :: effects where
  "no_effects = \<lparr>draws = 0, shuffles = 0\<rparr>"

text \<open>
  What the platform promises: \<open>Math.random()\<close> lies in \<open>[0, 1)\<close>, and \<open>shuffle\<close> returns
  a rearrangement of its argument.
\<close>

definition oracle_ok :: "randomness \<Rightarrow> bool" where
  "oracle_ok orc \<longleftrightarrow>
     (\<forall>k. 0 \<le> random_at orc k \<and> random_at orc k < 1) \<and>
     (\<forall>k xs. mset (shuffle_at orc k xs) = mset xs)"

definition Math_random :: "randomness \<Rightarrow> effects \<Rightarrow> real \<times> effects" where
  "Math_random orc e = (random_at orc (draws e), e\<lparr>draws := Suc (draws e)\<rparr>)"

definition shuffle :: "randomness \<Rightarrow> effects \<Rightarrow> charity list \<Rightarrow> charity list \<times> effects" where
  "shuffle orc e xs = (shuffle_at orc (shuffles e) xs, e\<lparr>shuffles := Suc (shuffles e)\<rparr>)"

section \<open>src/charity-selector/src/utils/csvReader.ts\<close>

text \<open>
  \<open>String.prototype.toUpperCase\<close> on the ASCII letters. The source compares the result
  with \<open>'TRUE'\<close> only, and no character outside ASCII has one of \<open>T\<close>, \<open>R\<close>, \<open>U\<close>,
  \<open>E\<close> alone as its upper case, so the other characters may stay as they are.
\<close>

definition toUpperCase_char :: "char \<Rightarrow> char" where
  "toUpperCase_char c =
     (let n = of_char c :: nat in if 97 \<le> n \<and> n \<le> 122 then char_of (n - 32) else c)"

definition toUpperCase :: "string \<Rightarrow> string" where
  "toUpperCase s = map toUpperCase_char s"

text \<open>
  \<open>parseUserProfile\<close>: the inner \<open>throw\<close> is caught by the function's own \<open>catch\<close> and
  rethrown with the prefix.
\<close>

definition parseUserProfile :: "raw_user_profile \<Rightarrow> js_error + user_profile" where
  "parseUserProfile rawProfile =
     (if r_id rawProfile = [] \<or> r_name rawProfile = [] \<or> r_state rawProfile = []
      then Inl (Error (''Failed to parse user profile: '' @
                       ''Profile missing required fields (id, name, state)''))
      else Inr \<lparr>p_id = r_id rawProfile,
                p_name = r_name rawProfile,
                p_state = r_state rawProfile,
                isMarried = (toUpperCase (r_isMarried rawProfile) = ''TRUE''),
                hasChildren = (toUpperCase (r_hasChildren rawProfile) = ''TRUE''),
                hasPets = (toUpperCase (r_hasPets rawProfile) = ''TRUE'')\<rparr>)"

definition validateCharity :: "charity \<Rightarrow> bool" where
  "validateCharity c =
     (if c_id c = [] \<or> c_name c = [] then False
      else if featured c \<noteq> [] \<and> featured c \<notin> set [''NATIONAL'', ''STATE'', '''']
        then False
      else if featured c = ''STATE'' \<and> c_state c = [] then False
      else True)"

section \<open>src/charity-selector/src/charitySelector.ts\<close>

definition DEFAULT_CONSTRAINTS :: selection_constraints where
  "DEFAULT_CONSTRAINTS =
     \<lparr>totalCharities = 12, maxStateCharities = 5, minAnimalCharitiesIfPets = 4\<rparr>"

text \<open>
  \<open>getRandomInt\<close>: \<open>Math.floor(Math.random() * (max - min + 1)) + min\<close>. The product
  is taken over the reals: the selector calls it with \<open>min = 0\<close> and \<open>max \<le> 5\<close>, where
  the double-precision product of a number below 1 with an integer up to 6 stays below that
  integer, so the floor ranges over the same integers \<open>0 \<dots> max\<close> as here.
\<close>

definition getRandomInt :: "randomness \<Rightarrow> effects \<Rightarrow> int \<Rightarrow> int \<Rightarrow> int \<times> effects" where
  "getRandomInt orc e lo hi =
     (let (u, e') = Math_random orc e
      in (\<lfloor>u * of_int (hi - lo + 1)\<rfloor> + lo, e'))"

text \<open>
  \<open>selectRandomItems\<close>: nothing in the \<open>try\<close> block throws, the \<open>catch\<close> is dead.
  The parameter \<open>count\<close> is \<open>cnt\<close> here.
\<close>

definition selectRandomItems ::
  "randomness \<Rightarrow> effects \<Rightarrow> charity list \<Rightarrow> int \<Rightarrow> charity list \<times> effects" where
  "selectRandomItems orc e items cnt =
     (if cnt \<le> 0 then ([], e)
      else if cnt \<ge> int (length items) then shuffle orc e items
      else (let (shuffled, e') = shuffle orc e items in (take (nat cnt) shuffled, e')))"

definition createTailoringRules :: "tailoring_rule list" where
  "createTailoringRules =
     [\<lparr>applies = (\<lambda>profile. hasPets profile),
       getMinCount = (\<lambda>_. minAnimalCharitiesIfPets DEFAULT_CONSTRAINTS),
       getCategory = (\<lambda>_. ''ANIMAL_RELATED'')\<rparr>]"

text \<open>
  The loop of lines 82--98 that splits \<open>actualMinCount\<close> picks between the state and
  the national side, one coin flip (\<open>Math.random() < 0.5\<close>) for each pick both sides can
  take. The first argument counts the iterations left.
\<close>

fun distribute ::
  "randomness \<Rightarrow> nat \<Rightarrow> int \<Rightarrow> int \<Rightarrow> int \<times> int \<times> effects \<Rightarrow> int \<times> int \<times> effects" where
  "distribute orc 0 maxFromState maxFromNational acc = acc"
| "distribute orc (Suc k) maxFromState maxFromNational (fromState, fromNational, e) =
     (let canPickState = fromState < maxFromState;
          canPickNational = fromNational < maxFromNational
      in if canPickState \<and> canPickNational then
           (let (u, e') = Math_random orc e
            in if u < 1 / 2
               then distribute orc k maxFromState maxFromNational (fromState + 1, fromNational, e')
               else distribute orc k maxFromState maxFromNational (fromState, fromNational + 1, e'))
         else if canPickState then
           distribute orc k maxFromState maxFromNational (fromState + 1, fromNational, e)
         else if canPickNational then
           distribute orc k maxFromState maxFromNational (fromState, fromNational + 1, e)
         else distribute orc k maxFromState maxFromNational (fromState, fromNational, e))"

record tailoring_result =
  national :: "charity list"
  state :: "charity list"
  remainingNational :: int
  remainingState :: int

text \<open>
  One iteration of the loop over the rules in \<open>applyTailoringRules\<close> (lines 52--112).
  \<open>c.id === s.id\<close> inside \<open>some\<close> is \<open>list_ex\<close>. Nothing in either \<open>try\<close> block
  of \<open>applyTailoringRules\<close> throws, so both \<open>catch\<close> blocks are dead.
\<close>

definition applyRule ::
  "randomness \<Rightarrow> user_profile \<Rightarrow> charity list \<Rightarrow> charity list \<Rightarrow> tailoring_rule \<Rightarrow>
   tailoring_result \<times> effects \<Rightarrow> tailoring_result \<times> effects" where
  "applyRule orc profile nationalCharities stateCharities rule acc =
     (let (t, e) = acc
      in if \<not> applies rule profile then (t, e)
         else
          (let cat = getCategory rule ();
               minCount = getMinCount rule profile;
               availableNational =
                 filter (\<lambda>c. category c = cat \<and> \<not> list_ex (\<lambda>s. c_id s = c_id c) (national t))
                   nationalCharities;
               availableState =
                 filter (\<lambda>c. category c = cat \<and> \<not> list_ex (\<lambda>s. c_id s = c_id c) (state t))
                   stateCharities;
               totalAvailable = int (length availableNational) + int (length availableState);
               actualMinCount =
                 min minCount (min totalAvailable (remainingNational t + remainingState t))
           in if actualMinCount \<le> 0 then (t, e)
              else
               (let maxFromState = min (remainingState t) (int (length availableState));
                    maxFromNational = min (remainingNational t) (int (length availableNational));
                    (fromState, fromNational, e1) =
                      distribute orc (nat actualMinCount) maxFromState maxFromNational (0, 0, e);
                    (newStateCharities, e2) = selectRandomItems orc e1 availableState fromState;
                    (newNationalCharities, e3) =
                      selectRandomItems orc e2 availableNational fromNational
                in (\<lparr>national = national t @ newNationalCharities,
                     state = state t @ newStateCharities,
                     remainingNational = remainingNational t - fromNational,
                     remainingState = remainingState t - fromState\<rparr>, e3))))"

definition applyTailoringRules ::
  "randomness \<Rightarrow> effects \<Rightarrow> user_profile \<Rightarrow> charity list \<Rightarrow> charity list \<Rightarrow> int \<Rightarrow> int \<Rightarrow>
   tailoring_result \<times> effects" where
  "applyTailoringRules orc e profile nationalCharities stateCharities
     selectedNationalCount selectedStateCount =
     foldl (\<lambda>acc rule. applyRule orc profile nationalCharities stateCharities rule acc)
       (\<lparr>national = [], state = [],
         remainingNational = selectedNationalCount,
         remainingState = selectedStateCount\<rparr>, e)
       createTailoringRules"

text \<open>
  What the functions write with \<open>console.log\<close>, \<open>console.warn\<close> and \<open>console.error\<close> is
  not part of the model.
\<close>

text \<open>
  \<open>selectCharities\<close> is one long function in the source. Its body is cut here at the
  source's own block comments: the animal check of lines 157--185, the supply adjustment of
  lines 189--211, the capacity plan and the selection of lines 150--253, the pools of
  lines 144--148 and the loading of lines 125--142. Each
  part takes and returns the two mutable counters \<open>selectedNationalCount\<close> and
  \<open>selectedStateCount\<close> as a pair, in this order.
\<close>

definition adjustForAnimals ::
  "user_profile \<Rightarrow> charity list \<Rightarrow> charity list \<Rightarrow> int \<times> int \<Rightarrow> int \<times> int" where
  "adjustForAnimals userProfile nationalCharities stateCharities counts =
     (let (selectedNationalCount, selectedStateCount) = counts
      in if hasPets userProfile then
          (let availableAnimalNational =
                 int (length (filter (\<lambda>c. category c = ''ANIMAL_RELATED'') nationalCharities));
               availableAnimalState =
                 int (length (filter (\<lambda>c. category c = ''ANIMAL_RELATED'') stateCharities));
               totalAvailableAnimals = availableAnimalNational + availableAnimalState
           in if totalAvailableAnimals \<ge> minAnimalCharitiesIfPets DEFAULT_CONSTRAINTS then
               (let maxAnimalFromState = min availableAnimalState selectedStateCount;
                    maxAnimalFromNational = min availableAnimalNational selectedNationalCount
                in if maxAnimalFromState + maxAnimalFromNational
                        < minAnimalCharitiesIfPets DEFAULT_CONSTRAINTS then
                    (let neededMoreAnimals = minAnimalCharitiesIfPets DEFAULT_CONSTRAINTS
                           - (maxAnimalFromState + maxAnimalFromNational)
                     in if availableAnimalNational > maxAnimalFromNational
                           \<and> selectedNationalCount < int (length nationalCharities) then
                         (let canIncrease =
                                min neededMoreAnimals
                                  (min (availableAnimalNational - maxAnimalFromNational)
                                       (int (length nationalCharities) - selectedNationalCount))
                          in (selectedNationalCount + canIncrease,
                              selectedStateCount - canIncrease))
                        else if availableAnimalState > maxAnimalFromState
                           \<and> selectedStateCount
                                < min (maxStateCharities DEFAULT_CONSTRAINTS)
                                      (int (length stateCharities)) then
                         (let canIncrease =
                                min neededMoreAnimals
                                  (min (availableAnimalState - maxAnimalFromState)
                                       (min (maxStateCharities DEFAULT_CONSTRAINTS)
                                            (int (length stateCharities)) - selectedStateCount))
                          in (selectedNationalCount - canIncrease,
                              selectedStateCount + canIncrease))
                        else (selectedNationalCount, selectedStateCount))
                   else (selectedNationalCount, selectedStateCount))
              else (selectedNationalCount, selectedStateCount))
         else (selectedNationalCount, selectedStateCount))"

definition adjustForSupply ::
  "charity list \<Rightarrow> charity list \<Rightarrow> int \<times> int \<Rightarrow> js_error + int \<times> int" where
  "adjustForSupply nationalCharities stateCharities counts =
     (let (selectedNationalCount, selectedStateCount) = counts
      in if selectedNationalCount > int (length nationalCharities) then
          (let shortage = selectedNationalCount - int (length nationalCharities);
               maxPossibleStateAdjusted =
                 min (maxStateCharities DEFAULT_CONSTRAINTS) (int (length stateCharities));
               canAddToState = min shortage (maxPossibleStateAdjusted - selectedStateCount);
               selectedStateCount' = selectedStateCount + canAddToState;
               selectedNationalCount' = selectedNationalCount - canAddToState
           in if selectedNationalCount' > int (length nationalCharities) then
               (let totalAvailable = int (length nationalCharities) + selectedStateCount'
                in if totalAvailable < totalCharities DEFAULT_CONSTRAINTS then
                     Inl (Error (''Insufficient total charities: need ''
                            @ show_int (totalCharities DEFAULT_CONSTRAINTS)
                            @ '', have '' @ show_int totalAvailable
                            @ '' ('' @ show_int (int (length nationalCharities))
                            @ '' national + '' @ show_int selectedStateCount' @ '' state)''))
                   else Inr (int (length nationalCharities), selectedStateCount'))
              else Inr (selectedNationalCount', selectedStateCount'))
         else Inr (selectedNationalCount, selectedStateCount))"

text \<open>Lines 150--253: capacity plan, tailoring, filling, final check, final shuffle.\<close>

definition selectFromPools ::
  "randomness \<Rightarrow> user_profile \<Rightarrow> charity list \<Rightarrow> charity list \<Rightarrow>
   (js_error + charity list) \<times> effects" where
  "selectFromPools orc userProfile nationalCharities stateCharities =
     (let maxPossibleState =
            min (maxStateCharities DEFAULT_CONSTRAINTS) (int (length stateCharities));
          (selectedStateCount0, e1) = getRandomInt orc no_effects 0 maxPossibleState;
          selectedNationalCount0 = totalCharities DEFAULT_CONSTRAINTS - selectedStateCount0
      in case adjustForSupply nationalCharities stateCharities
                (adjustForAnimals userProfile nationalCharities stateCharities
                   (selectedNationalCount0, selectedStateCount0)) of
           Inl err \<Rightarrow> (Inl err, e1)
         | Inr (selectedNationalCount, selectedStateCount) \<Rightarrow>
            (let (tailoringResult, e2) =
                   applyTailoringRules orc e1 userProfile nationalCharities stateCharities
                     selectedNationalCount selectedStateCount;
                 remainingNationalCharities =
                   filter (\<lambda>c. \<not> list_ex (\<lambda>selected. c_id selected = c_id c)
                                     (national tailoringResult)) nationalCharities;
                 remainingStateCharities =
                   filter (\<lambda>c. \<not> list_ex (\<lambda>selected. c_id selected = c_id c)
                                     (state tailoringResult)) stateCharities;
                 (additionalNational, e3) =
                   selectRandomItems orc e2 remainingNationalCharities
                     (remainingNational tailoringResult);
                 (additionalState, e4) =
                   selectRandomItems orc e3 remainingStateCharities
                     (remainingState tailoringResult);
                 finalSelection = national tailoringResult @ state tailoringResult
                                   @ additionalNational @ additionalState;
                 expectedCount =
                   min (totalCharities DEFAULT_CONSTRAINTS)
                       (int (length nationalCharities) + int (length stateCharities))
             in if int (length finalSelection) \<noteq> expectedCount then
                  (Inl (Error (''Selection count mismatch: expected '' @ show_int expectedCount
                          @ '', got '' @ show_int (int (length finalSelection)))), e4)
                else (let (shuffledResults, e5) = shuffle orc e4 finalSelection
                      in (Inr shuffledResults, e5))))"

text \<open>Lines 144--148: the two pools.\<close>

definition selectFromValid ::
  "randomness \<Rightarrow> user_profile \<Rightarrow> charity list \<Rightarrow> (js_error + charity list) \<times> effects" where
  "selectFromValid orc userProfile validCharities =
     (let nationalCharities = filter (\<lambda>c. featured c = ''NATIONAL'') validCharities;
          stateCharities =
            filter (\<lambda>c. featured c = ''STATE'' \<and> c_state c = p_state userProfile) validCharities
      in selectFromPools orc userProfile nationalCharities stateCharities)"

text \<open>
  The \<open>try\<close> block of \<open>selectCharities\<close>. The two \<open>readCsvFile\<close> calls are the file
  system's part: each either resolves to the rows it read or rejects with the value it caught
  or made, and that outcome is the input here (\<open>Inl\<close> a rejection). The second file is read only after
  the first has been read.
\<close>

definition selectCharities_try ::
  "randomness \<Rightarrow> js_error + charity list \<Rightarrow> js_error + raw_user_profile list \<Rightarrow>
   (js_error + charity list) \<times> effects" where
  "selectCharities_try orc readCharities readProfiles =
     (case readCharities of
        Inl err \<Rightarrow> (Inl err, no_effects)
      | Inr rawCharities \<Rightarrow>
         (case readProfiles of
            Inl err \<Rightarrow> (Inl err, no_effects)
          | Inr rawProfiles \<Rightarrow>
             (case rawProfiles of
                [] \<Rightarrow> (Inl (Error ''No user profile found in profile CSV''), no_effects)
              | rawProfile # _ \<Rightarrow>
                 (case parseUserProfile rawProfile of
                    Inl err \<Rightarrow> (Inl err, no_effects)
                  | Inr userProfile \<Rightarrow>
                     (let validCharities = filter validateCharity rawCharities
                      in if int (length validCharities) < totalCharities DEFAULT_CONSTRAINTS
                         then (Inl (Error (''Insufficient charities: need ''
                                      @ show_int (totalCharities DEFAULT_CONSTRAINTS)
                                      @ '', have '' @ show_int (int (length validCharities)))),
                               no_effects)
                         else selectFromValid orc userProfile validCharities)))))"

text \<open>
  \<open>selectCharities\<close>: the \<open>catch\<close> wraps whatever the \<open>try\<close> block threw in a new
  \<open>Error\<close>, with the message
  \<open>error instanceof Error ? error.message : 'Unknown error'\<close> after the prefix.
\<close>

definition selectCharities ::
  "randomness \<Rightarrow> js_error + charity list \<Rightarrow> js_error + raw_user_profile list \<Rightarrow>
   (js_error + charity list) \<times> effects" where
  "selectCharities orc readCharities readProfiles =
     (case selectCharities_try orc readCharities readProfiles of
        (Inl err, e) \<Rightarrow>
          (Inl (Error (''Charity selection failed: ''
                  @ (if instanceof_Error err then message err else ''Unknown error''))), e)
      | (Inr result, e) \<Rightarrow> (Inr result, e))"

section \<open>Vocabulary of the properties\<close>

text \<open>
  The two pools of lines 145--148, as functions of the rows read from the charities file:
  the valid rows that are featured nationally, and the valid rows that are featured in the
  state of the profile. Together they are the eligible candidates.
\<close>

definition nationalPool :: "charity list \<Rightarrow> charity list" where
  "nationalPool rawCharities =
     filter (\<lambda>c. featured c = ''NATIONAL'') (filter validateCharity rawCharities)"

definition statePool :: "user_profile \<Rightarrow> charity list \<Rightarrow> charity list" where
  "statePool userProfile rawCharities =
     filter (\<lambda>c. featured c = ''STATE'' \<and> c_state c = p_state userProfile)
       (filter validateCharity rawCharities)"

section \<open>Inputs of the test suite\<close>

text \<open>A row of the charities file: id, name, state, category, featured.\<close>

definition charity_row :: "string \<Rightarrow> string \<Rightarrow> string \<Rightarrow> string \<Rightarrow> string \<Rightarrow> charity" where
  "charity_row i n s c f =
     \<lparr>c_id = i, c_name = n, c_state = s, category = c, featured = f\<rparr>"

text \<open>\<open>tests/data/test-profile-with-pets.csv\<close>, as \<open>csvReader.test.ts\<close> reads it.\<close>

definition profile_with_pets :: raw_user_profile where
  "profile_with_pets =
     \<lparr>r_id = ''123'', r_name = ''Test User'', r_state = ''NEW_YORK'', r_isMarried = ''TRUE'',
      r_hasChildren = ''FALSE'', r_hasPets = ''TRUE'', r_age = ''35''\<rparr>"

definition new_york_pet_owner :: user_profile where
  "new_york_pet_owner =
     \<lparr>p_id = ''123'', p_name = ''Test User'', p_state = ''NEW_YORK'', isMarried = True,
      hasChildren = False, hasPets = True\<rparr>"

text \<open>\<open>temp-boundary.csv\<close> of the integration tests: 8 national and 4 New York rows.\<close>

definition boundary_charities :: "charity list" where
  "boundary_charities =
     [charity_row ''1'' ''National 1'' ''TEXAS'' ''OTHER'' ''NATIONAL'',
      charity_row ''2'' ''National 2'' ''TEXAS'' ''OTHER'' ''NATIONAL'',
      charity_row ''3'' ''National 3'' ''TEXAS'' ''OTHER'' ''NATIONAL'',
      charity_row ''4'' ''National 4'' ''TEXAS'' ''OTHER'' ''NATIONAL'',
      charity_row ''5'' ''National 5'' ''TEXAS'' ''ANIMAL_RELATED'' ''NATIONAL'',
      charity_row ''6'' ''National 6'' ''TEXAS'' ''ANIMAL_RELATED'' ''NATIONAL'',
      charity_row ''7'' ''National 7'' ''TEXAS'' ''ANIMAL_RELATED'' ''NATIONAL'',
      charity_row ''8'' ''National 8'' ''TEXAS'' ''ANIMAL_RELATED'' ''NATIONAL'',
      charity_row ''9'' ''State 1'' ''NEW_YORK'' ''OTHER'' ''STATE'',
      charity_row ''10'' ''State 2'' ''NEW_YORK'' ''OTHER'' ''STATE'',
      charity_row ''11'' ''State 3'' ''NEW_YORK'' ''OTHER'' ''STATE'',
      charity_row ''12'' ''State 4'' ''NEW_YORK'' ''ANIMAL_RELATED'' ''STATE'']"

text \<open>\<open>temp-all-state.csv\<close> of \<open>edgeCases.test.ts\<close>: 12 New York rows, none national.\<close>

definition all_state_charities :: "charity list" where
  "all_state_charities =
     [charity_row ''1'' ''NY Charity 1'' ''NEW_YORK'' ''OTHER'' ''STATE'',
      charity_row ''2'' ''NY Charity 2'' ''NEW_YORK'' ''OTHER'' ''STATE'',
      charity_row ''3'' ''NY Charity 3'' ''NEW_YORK'' ''OTHER'' ''STATE'',
      charity_row ''4'' ''NY Charity 4'' ''NEW_YORK'' ''OTHER'' ''STATE'',
      charity_row ''5'' ''NY Charity 5'' ''NEW_YORK'' ''OTHER'' ''STATE'',
      charity_row ''6'' ''NY Charity 6'' ''NEW_YORK'' ''OTHER'' ''STATE'',
      charity_row ''7'' ''NY Charity 7'' ''NEW_YORK'' ''OTHER'' ''STATE'',
      charity_row ''8'' ''NY Charity 8'' ''NEW_YORK'' ''OTHER'' ''STATE'',
      charity_row ''9'' ''NY Charity 9'' ''NEW_YORK'' ''OTHER'' ''STATE'',
      charity_row ''10'' ''NY Charity 10'' ''NEW_YORK'' ''OTHER'' ''STATE'',
      charity_row ''11'' ''NY Charity 11'' ''NEW_YORK'' ''OTHER'' ''STATE'',
      charity_row ''12'' ''NY Charity 12'' ''NEW_YORK'' ''OTHER'' ''STATE'']"



text \<open>
  The rows of \<open>temp-boundary.csv\<close> in the order in which the selection assembles them
  when every coin flip and every shuffle is the first possible one: the animal rows picked
  by the tailoring rule (three national, one state), then the other national rows, then
  the other state rows.
\<close>

definition boundary_selection :: "charity list" where
  "boundary_selection =
     [charity_row ''5'' ''National 5'' ''TEXAS'' ''ANIMAL_RELATED'' ''NATIONAL'',
      charity_row ''6'' ''National 6'' ''TEXAS'' ''ANIMAL_RELATED'' ''NATIONAL'',
      charity_row ''7'' ''National 7'' ''TEXAS'' ''ANIMAL_RELATED'' ''NATIONAL'',
      charity_row ''12'' ''State 4'' ''NEW_YORK'' ''ANIMAL_RELATED'' ''STATE'',
      charity_row ''1'' ''National 1'' ''TEXAS'' ''OTHER'' ''NATIONAL'',
      charity_row ''2'' ''National 2'' ''TEXAS'' ''OTHER'' ''NATIONAL'',
      charity_row ''3'' ''National 3'' ''TEXAS'' ''OTHER'' ''NATIONAL'',
      charity_row ''4'' ''National 4'' ''TEXAS'' ''OTHER'' ''NATIONAL'',
      charity_row ''8'' ''National 8'' ''TEXAS'' ''ANIMAL_RELATED'' ''NATIONAL'',
      charity_row ''9'' ''State 1'' ''NEW_YORK'' ''OTHER'' ''STATE'',
      charity_row ''10'' ''State 2'' ''NEW_YORK'' ''OTHER'' ''STATE'',
      charity_row ''11'' ''State 3'' ''NEW_YORK'' ''OTHER'' ''STATE'']"

text \<open>
  \<open>temp-boundary.csv\<close> with the id of its eighth row changed to \<open>7\<close>, the id of the
  seventh: an input that breaks the uniqueness of ids.
\<close>

definition duplicate_id_charities :: "charity list" where
  "duplicate_id_charities =
     boundary_charities
       [7 := charity_row ''7'' ''National 8'' ''TEXAS'' ''ANIMAL_RELATED'' ''NATIONAL'']"

text \<open>
  The profile file with the columns \<open>id\<close> and \<open>name\<close> only, of the test of corrupted
  profile data in \<open>edgeCases.test.ts\<close>.
\<close>

definition corrupted_profile :: raw_user_profile where
  "corrupted_profile =
     \<lparr>r_id = ''999'', r_name = ''Incomplete User'', r_state = [], r_isMarried = [],
      r_hasChildren = [], r_hasPets = [], r_age = []\<rparr>"

text \<open>
  The randomness in which every \<open>Math.random()\<close> is \<open>0\<close> and every \<open>shuffle\<close> leaves
  the order as it is.
\<close>

definition first_choices :: randomness where
  "first_choices = \<lparr>random_at = (\<lambda>_. 0), shuffle_at = (\<lambda>_ xs. xs)\<rparr>"

section \<open>Basic facts\<close>

lemma show_nat_small: "n < 10 \<Longrightarrow> show_nat n = [digit n]"
  by (subst show_nat.simps) simp

lemma show_nat_big: "10 \<le> n \<Longrightarrow> show_nat n = show_nat (n div 10) @ [digit (n mod 10)]"
  by (subst show_nat.simps) simp

lemma constraints_simps [simp]:
  "totalCharities DEFAULT_CONSTRAINTS = 12"
  "maxStateCharities DEFAULT_CONSTRAINTS = 5"
  "minAnimalCharitiesIfPets DEFAULT_CONSTRAINTS = 4"
  by (simp_all add: DEFAULT_CONSTRAINTS_def)

lemma getRandomInt_range:
  assumes "oracle_ok orc" and "lo \<le> hi" and "getRandomInt orc e lo hi = (r, e')"
  shows "lo \<le> r \<and> r \<le> hi \<and> draws e' = Suc (draws e) \<and> shuffles e' = shuffles e"
proof -
  define u where "u = random_at orc (draws e)"
  have u: "0 \<le> u" "u < 1" using assms(1) by (simp_all add: oracle_ok_def u_def)
  have r: "r = \<lfloor>u * of_int (hi - lo + 1)\<rfloor> + lo" and e': "e' = e\<lparr>draws := Suc (draws e)\<rparr>"
    using assms(3) by (simp_all add: getRandomInt_def Math_random_def u_def)
  define m where "m = hi - lo + 1"
  have m: "0 < m" using assms(2) by (simp add: m_def)
  then have pos: "0 < (of_int m :: real)" by simp
  have "0 \<le> u * of_int m" using u pos by simp
  then have lo': "0 \<le> \<lfloor>u * of_int m\<rfloor>" by simp
  have "u * of_int m < of_int m" using u pos by simp
  then have hi': "\<lfloor>u * of_int m\<rfloor> < m" by (simp add: floor_less_iff)
  have r': "r = \<lfloor>u * of_int m\<rfloor> + lo" using r by (simp add: m_def)
  from lo' hi' have "lo \<le> r \<and> r \<le> hi" unfolding r' m_def by linarith
  then show ?thesis using r e' by simp
qed

lemma distribute_bounds:
  "distribute orc k mS mN (a, b, e) = (a', b', e') \<Longrightarrow> a \<le> mS \<Longrightarrow> b \<le> mN \<Longrightarrow>
     a \<le> a' \<and> a' \<le> mS \<and> b \<le> b' \<and> b' \<le> mN \<and> a' + b' = min (a + b + int k) (mS + mN)
     \<and> shuffles e' = shuffles e \<and> draws e \<le> draws e'"
proof (induction k arbitrary: a b e)
  case 0
  then show ?case by simp
next
  case (Suc k)
  show ?case
  proof (cases "a < mS")
    case aS: True
    show ?thesis
    proof (cases "b < mN")
      case True
      show ?thesis
      proof (cases "random_at orc (draws e) < 1 / 2")
        case True
        with aS \<open>b < mN\<close> Suc.prems
        have "distribute orc k mS mN (a + 1, b, e\<lparr>draws := Suc (draws e)\<rparr>) = (a', b', e')"
          by (simp add: Math_random_def)
        from Suc.IH[OF this] aS Suc.prems(3) show ?thesis by simp
      next
        case False
        with aS \<open>b < mN\<close> Suc.prems
        have "distribute orc k mS mN (a, b + 1, e\<lparr>draws := Suc (draws e)\<rparr>) = (a', b', e')"
          by (simp add: Math_random_def)
        from Suc.IH[OF this] aS \<open>b < mN\<close> Suc.prems(2) show ?thesis by simp
      qed
    next
      case False
      with aS Suc.prems have "distribute orc k mS mN (a + 1, b, e) = (a', b', e')" by simp
      from Suc.IH[OF this] aS False Suc.prems(3) show ?thesis by simp
    qed
  next
    case naS: False
    show ?thesis
    proof (cases "b < mN")
      case True
      with naS Suc.prems have "distribute orc k mS mN (a, b + 1, e) = (a', b', e')" by simp
      from Suc.IH[OF this] naS True Suc.prems(2) show ?thesis by simp
    next
      case False
      with naS Suc.prems have "distribute orc k mS mN (a, b, e) = (a', b', e')" by simp
      from Suc.IH[OF this] naS False Suc.prems(2,3) show ?thesis by simp
    qed
  qed
qed


lemma selectRandomItems_spec:
  assumes "oracle_ok orc" and "selectRandomItems orc e items c = (r, e')"
  shows "mset r \<subseteq># mset items \<and> int (length r) = max 0 (min c (int (length items)))
         \<and> draws e' = draws e"
proof -
  have perm: "mset (shuffle_at orc (shuffles e) items) = mset items"
    using assms(1) by (simp add: oracle_ok_def)
  then have len: "length (shuffle_at orc (shuffles e) items) = length items"
    by (metis size_mset)
  have sub: "mset (take n (shuffle_at orc (shuffles e) items)) \<subseteq># mset items" for n
    using perm by (metis append_take_drop_id mset_append mset_subset_eq_add_left)
  show ?thesis
    using assms(2) perm len sub
    by (auto simp: selectRandomItems_def shuffle_def split: if_splits)
qed

section \<open>The capacity plan\<close>

lemma adjustForAnimals_spec:
  assumes adj: "adjustForAnimals P N S (12 - s0, s0) = (n1, s1)"
    and s0: "0 \<le> s0" "s0 \<le> min 5 (int (length S))"
  shows "n1 + s1 = 12 \<and> s0 \<le> s1 \<and> s1 \<le> min 5 (int (length S)) \<and>
         (hasPets P \<and> 4 \<le> int (length (filter (\<lambda>c. category c = ''ANIMAL_RELATED'') N))
                          + int (length (filter (\<lambda>c. category c = ''ANIMAL_RELATED'') S))
          \<longrightarrow> 4 \<le> min (int (length (filter (\<lambda>c. category c = ''ANIMAL_RELATED'') S))) s1
                 + min (int (length (filter (\<lambda>c. category c = ''ANIMAL_RELATED'') N))) n1)"
proof -
  define aN where "aN = int (length (filter (\<lambda>c. category c = ''ANIMAL_RELATED'') N))"
  define aS where "aS = int (length (filter (\<lambda>c. category c = ''ANIMAL_RELATED'') S))"
  define lN where "lN = int (length N)"
  define lS where "lS = int (length S)"
  have b: "0 \<le> aN" "0 \<le> aS" "aS \<le> lS" "aN \<le> lN"
    by (simp_all add: aN_def aS_def lS_def lN_def)
  from adj s0 b show ?thesis
    unfolding adjustForAnimals_def Let_def aN_def[symmetric] aS_def[symmetric]
      lN_def[symmetric] lS_def[symmetric] constraints_simps
    by (simp split: if_splits; linarith)
qed

lemma adjustForSupply_Inr:
  assumes "adjustForSupply N S (n1, s1) = Inr (n, s)"
    and "n1 + s1 = 12" and "s1 \<le> min 5 (int (length S))"
  shows "n + s = 12 \<and> s1 \<le> s \<and> s \<le> min 5 (int (length S)) \<and> n \<le> int (length N)
         \<and> (n = n1 \<or> n = int (length N))"
  using assms unfolding adjustForSupply_def Let_def constraints_simps
  by (simp split: if_splits; linarith)

lemma adjustForSupply_Inl:
  assumes "adjustForSupply N S (n1, s1) = Inl err"
    and "n1 + s1 = 12" and "s1 \<le> min 5 (int (length S))"
  shows "int (length N) + min 5 (int (length S)) < 12 \<and>
         err = Error (''Insufficient total charities: need '' @ show_int 12
                 @ '', have '' @ show_int (int (length N) + min 5 (int (length S)))
                 @ '' ('' @ show_int (int (length N))
                 @ '' national + '' @ show_int (min 5 (int (length S))) @ '' state)'')"
proof -
  define m where "m = min 5 (int (length S))"
  have c: "min (n1 - int (length N)) (m - s1) = m - s1" if "int (length N) + m < 12"
    using that assms(2,3) by (simp add: m_def)
  from assms show ?thesis
    unfolding adjustForSupply_def Let_def constraints_simps m_def[symmetric]
    by (auto split: if_splits simp: min_def)
qed

lemma adjustForSupply_ok:
  assumes "12 \<le> int (length N) + min 5 (int (length S))"
    and "n1 + s1 = 12" and "s1 \<le> min 5 (int (length S))"
  shows "\<exists>n s. adjustForSupply N S (n1, s1) = Inr (n, s)"
proof (cases "adjustForSupply N S (n1, s1)")
  case (Inl err)
  from adjustForSupply_Inl[OF this assms(2,3)] assms(1) show ?thesis by simp
next
  case (Inr p)
  then show ?thesis by (cases p) simp
qed

lemma applyTailoringRules_spec:
  assumes ok: "oracle_ok orc"
    and app: "applyTailoringRules orc e P N S n s = (t, e')"
    and n: "0 \<le> n" and s: "0 \<le> s"
  shows "mset (national t) \<subseteq># mset (filter (\<lambda>c. category c = ''ANIMAL_RELATED'') N)"
    and "mset (state t) \<subseteq># mset (filter (\<lambda>c. category c = ''ANIMAL_RELATED'') S)"
    and "int (length (national t)) + remainingNational t = n"
    and "int (length (state t)) + remainingState t = s"
    and "0 \<le> remainingNational t" and "0 \<le> remainingState t"
    and "hasPets P \<Longrightarrow>
         4 \<le> min (int (length (filter (\<lambda>c. category c = ''ANIMAL_RELATED'') S))) s
           + min (int (length (filter (\<lambda>c. category c = ''ANIMAL_RELATED'') N))) n
         \<Longrightarrow> length (national t) + length (state t) = 4"
    and "draws e \<le> draws e'"
proof -
  define avN where "avN = filter (\<lambda>c. category c = ''ANIMAL_RELATED'') N"
  define avS where "avS = filter (\<lambda>c. category c = ''ANIMAL_RELATED'') S"
  define t0 where "t0 = \<lparr>national = [], state = [], remainingNational = n, remainingState = s\<rparr>"
  define amc where "amc = min 4 (min (int (length avN) + int (length avS)) (n + s))"
  define mS where "mS = min s (int (length avS))"
  define mN where "mN = min n (int (length avN))"
  have step: "applyTailoringRules orc e P N S n s =
      (if \<not> hasPets P then (t0, e)
       else if amc \<le> 0 then (t0, e)
       else (let (fs, fn, e1) = distribute orc (nat amc) mS mN (0, 0, e);
                 (ns, e2) = selectRandomItems orc e1 avS fs;
                 (nn, e3) = selectRandomItems orc e2 avN fn
             in (\<lparr>national = nn, state = ns, remainingNational = n - fn,
                  remainingState = s - fs\<rparr>, e3)))"
    unfolding amc_def mS_def mN_def avN_def avS_def t0_def
    by (auto simp add: applyTailoringRules_def createTailoringRules_def applyRule_def Let_def)
  have goal: "mset (national t) \<subseteq># mset avN \<and> mset (state t) \<subseteq># mset avS
      \<and> int (length (national t)) + remainingNational t = n
      \<and> int (length (state t)) + remainingState t = s
      \<and> 0 \<le> remainingNational t \<and> 0 \<le> remainingState t
      \<and> (hasPets P \<longrightarrow> 4 \<le> min (int (length avS)) s + min (int (length avN)) n
           \<longrightarrow> length (national t) + length (state t) = 4)
      \<and> draws e \<le> draws e'"
  proof (cases "hasPets P \<and> 0 < amc")
    case False
    then have "t = t0 \<and> e' = e"
      using app unfolding step by (auto split: if_splits)
    moreover have "\<not> (4 \<le> min (int (length avS)) s + min (int (length avN)) n)" if "hasPets P"
      using that False n s unfolding amc_def by linarith
    ultimately show ?thesis using n s by (simp add: t0_def)
  next
    case True
    obtain fs fn e1 where d: "distribute orc (nat amc) mS mN (0, 0, e) = (fs, fn, e1)"
      by (metis prod_cases3)
    obtain ns e2 where rs: "selectRandomItems orc e1 avS fs = (ns, e2)" by fastforce
    obtain nn e3 where rn: "selectRandomItems orc e2 avN fn = (nn, e3)" by fastforce
    have t: "t = \<lparr>national = nn, state = ns, remainingNational = n - fn,
                 remainingState = s - fs\<rparr>" and e': "e' = e3"
      using True d rs rn app unfolding step by simp_all
    have m0: "0 \<le> mS" "0 \<le> mN" using n s by (simp_all add: mS_def mN_def)
    from distribute_bounds[OF d] m0
    have db: "0 \<le> fs" "fs \<le> mS" "0 \<le> fn" "fn \<le> mN" "fs + fn = min (int (nat amc)) (mS + mN)"
      "draws e \<le> draws e1"
      by simp_all
    have fsl: "fs \<le> int (length avS)" "fs \<le> s" "fn \<le> int (length avN)" "fn \<le> n"
      using db(2,4) by (simp_all add: mS_def mN_def)
    from selectRandomItems_spec[OF ok rs] db(1) fsl(1)
    have s1: "mset ns \<subseteq># mset avS" "int (length ns) = fs" "draws e2 = draws e1"
      by simp_all
    from selectRandomItems_spec[OF ok rn] db(3) fsl(3)
    have n1: "mset nn \<subseteq># mset avN" "int (length nn) = fn" "draws e3 = draws e2"
      by simp_all
    have four: "fs + fn = 4" if "4 \<le> min (int (length avS)) s + min (int (length avN)) n"
      using that db(5) True unfolding amc_def mS_def mN_def by linarith
    have len4: "length nn + length ns = 4"
      if "4 \<le> min (int (length avS)) s + min (int (length avN)) n"
      using four[OF that] s1(2) n1(2) by linarith
    show ?thesis
      using s1 n1 db(1,3,6) fsl(2,4) len4 unfolding t e' by simp
  qed
  show "mset (national t) \<subseteq># mset (filter (\<lambda>c. category c = ''ANIMAL_RELATED'') N)"
    and "mset (state t) \<subseteq># mset (filter (\<lambda>c. category c = ''ANIMAL_RELATED'') S)"
    and "int (length (national t)) + remainingNational t = n"
    and "int (length (state t)) + remainingState t = s"
    and "0 \<le> remainingNational t" and "0 \<le> remainingState t"
    and "hasPets P \<Longrightarrow>
         4 \<le> min (int (length (filter (\<lambda>c. category c = ''ANIMAL_RELATED'') S))) s
           + min (int (length (filter (\<lambda>c. category c = ''ANIMAL_RELATED'') N))) n
         \<Longrightarrow> length (national t) + length (state t) = 4"
    and "draws e \<le> draws e'"
    using goal by (simp_all add: avN_def avS_def)
qed

section \<open>Pools and what is left of them\<close>

lemma distinct_sub_mset:
  assumes "distinct ys" and "mset xs \<subseteq># mset ys"
  shows "distinct xs"
proof -
  from assms(2) obtain M where M: "mset ys = mset xs + M"
    by (auto simp: mset_subset_eq_exists_conv)
  obtain zs where zs: "M = mset zs" using ex_mset[of M] by auto
  have "mset ys = mset (xs @ zs)" using M zs by simp
  then have "distinct (xs @ zs)" using assms(1) mset_eq_imp_distinct_iff by blast
  then show ?thesis by simp
qed

lemma remaining_mset:
  assumes d: "distinct (map c_id N)" and sub: "mset tn \<subseteq># mset N"
  shows "mset (filter (\<lambda>c. \<not> list_ex (\<lambda>selected. c_id selected = c_id c) tn) N) + mset tn
         = mset N"
proof -
  have dN: "distinct N" and inj: "inj_on c_id (set N)"
    using d by (simp_all add: distinct_map)
  have ss: "set tn \<subseteq> set N" using set_mset_mono[OF sub] by simp
  have dt: "distinct tn" using distinct_sub_mset[OF dN sub] .
  have eq: "filter (\<lambda>c. \<not> list_ex (\<lambda>selected. c_id selected = c_id c) tn) N
            = filter (\<lambda>c. c \<notin> set tn) N"
  proof (rule filter_cong[OF refl])
    fix c assume c: "c \<in> set N"
    have "list_ex (\<lambda>selected. c_id selected = c_id c) tn \<longleftrightarrow> c \<in> set tn"
    proof
      assume "list_ex (\<lambda>selected. c_id selected = c_id c) tn"
      then obtain x where x: "x \<in> set tn" "c_id x = c_id c" by (auto simp: list_ex_iff)
      with ss have "x \<in> set N" by blast
      with inj c x(2) have "x = c" by (rule_tac inj_onD)
      with x(1) show "c \<in> set tn" by simp
    next
      assume "c \<in> set tn"
      then show "list_ex (\<lambda>selected. c_id selected = c_id c) tn"
        unfolding list_ex_iff by (rule_tac x = c in bexI) simp_all
    qed
    then show "(\<not> list_ex (\<lambda>selected. c_id selected = c_id c) tn) = (c \<notin> set tn)" by simp
  qed
  have inm: "mset (filter (\<lambda>c. c \<in> set tn) N) = mset tn"
  proof (rule iffD1[OF set_eq_iff_mset_eq_distinct])
    show "distinct (filter (\<lambda>c. c \<in> set tn) N)" using dN by simp
    show "distinct tn" by (rule dt)
    show "set (filter (\<lambda>c. c \<in> set tn) N) = set tn" using ss by auto
  qed
  have part: "mset (filter (\<lambda>c. c \<notin> set tn) N) + mset (filter (\<lambda>c. c \<in> set tn) N) = mset N"
    by (induction N) simp_all
  have "mset (filter (\<lambda>c. c \<notin> set tn) N) + mset tn
        = mset (filter (\<lambda>c. c \<notin> set tn) N) + mset (filter (\<lambda>c. c \<in> set tn) N)"
    by (simp only: inm)
  also have "\<dots> = mset N" by (rule part)
  finally show ?thesis unfolding eq .
qed

section \<open>The selection, case by case\<close>

lemma selectFromPools_cases:
  assumes ok: "oracle_ok orc"
  obtains (short) e1 where
      "int (length N) + min 5 (int (length S)) < 12"
      "selectFromPools orc P N S =
         (Inl (Error (''Insufficient total charities: need '' @ show_int 12
                 @ '', have '' @ show_int (int (length N) + min 5 (int (length S)))
                 @ '' ('' @ show_int (int (length N))
                 @ '' national + '' @ show_int (min 5 (int (length S))) @ '' state)'')), e1)"
      "draws e1 = 1" "shuffles e1 = 0"
  | (run) n s and t :: tailoring_result and an as e4 where
      "n + s = 12" "0 \<le> s" "s \<le> min 5 (int (length S))" "n \<le> int (length N)"
      "mset (national t) \<subseteq># mset (filter (\<lambda>c. category c = ''ANIMAL_RELATED'') N)"
      "mset (state t) \<subseteq># mset (filter (\<lambda>c. category c = ''ANIMAL_RELATED'') S)"
      "int (length (national t)) + remainingNational t = n"
      "int (length (state t)) + remainingState t = s"
      "0 \<le> remainingNational t" "0 \<le> remainingState t"
      "mset an \<subseteq># mset (filter (\<lambda>c. \<not> list_ex (\<lambda>selected. c_id selected = c_id c)
                                         (national t)) N)"
      "int (length an) = min (remainingNational t)
         (int (length (filter (\<lambda>c. \<not> list_ex (\<lambda>selected. c_id selected = c_id c)
                                         (national t)) N)))"
      "mset as \<subseteq># mset (filter (\<lambda>c. \<not> list_ex (\<lambda>selected. c_id selected = c_id c)
                                         (state t)) S)"
      "int (length as) = min (remainingState t)
         (int (length (filter (\<lambda>c. \<not> list_ex (\<lambda>selected. c_id selected = c_id c)
                                         (state t)) S)))"
      "hasPets P \<Longrightarrow>
         4 \<le> int (length (filter (\<lambda>c. category c = ''ANIMAL_RELATED'') N))
           + int (length (filter (\<lambda>c. category c = ''ANIMAL_RELATED'') S))
         \<Longrightarrow> length (national t) + length (state t) = 4"
      "selectFromPools orc P N S =
         (if int (length (national t @ state t @ an @ as))
               \<noteq> min 12 (int (length N) + int (length S))
          then (Inl (Error (''Selection count mismatch: expected ''
                      @ show_int (min 12 (int (length N) + int (length S)))
                      @ '', got '' @ show_int (int (length (national t @ state t @ an @ as))))),
                e4)
          else (Inr (shuffle_at orc (shuffles e4) (national t @ state t @ an @ as)),
                e4\<lparr>shuffles := Suc (shuffles e4)\<rparr>))"
proof -
  define m where "m = min 5 (int (length S))"
  have m0: "0 \<le> m" by (simp add: m_def)
  obtain s0 e1 where g: "getRandomInt orc no_effects 0 m = (s0, e1)" by fastforce
  from getRandomInt_range[OF ok m0 g]
  have s0: "0 \<le> s0" "s0 \<le> m" and e1: "draws e1 = 1" "shuffles e1 = 0"
    by (simp_all add: no_effects_def)
  obtain n1 s1 where a: "adjustForAnimals P N S (12 - s0, s0) = (n1, s1)" by fastforce
  from adjustForAnimals_spec[OF a s0(1) s0(2)[unfolded m_def]]
  have a1: "n1 + s1 = 12" "s0 \<le> s1" "s1 \<le> min 5 (int (length S))"
    and a2: "hasPets P \<Longrightarrow>
         4 \<le> int (length (filter (\<lambda>c. category c = ''ANIMAL_RELATED'') N))
           + int (length (filter (\<lambda>c. category c = ''ANIMAL_RELATED'') S))
         \<Longrightarrow> 4 \<le> min (int (length (filter (\<lambda>c. category c = ''ANIMAL_RELATED'') S))) s1
                 + min (int (length (filter (\<lambda>c. category c = ''ANIMAL_RELATED'') N))) n1"
    by simp_all
  show thesis
  proof (cases "adjustForSupply N S (n1, s1)")
    case (Inl err)
    from adjustForSupply_Inl[OF Inl a1(1,3)]
    have lt: "int (length N) + min 5 (int (length S)) < 12"
      and err: "err = Error (''Insufficient total charities: need '' @ show_int 12
                 @ '', have '' @ show_int (int (length N) + min 5 (int (length S)))
                 @ '' ('' @ show_int (int (length N))
                 @ '' national + '' @ show_int (min 5 (int (length S))) @ '' state)'')"
      by simp_all
    have "selectFromPools orc P N S = (Inl err, e1)"
      using g a Inl by (simp add: selectFromPools_def m_def)
    with lt err e1 show thesis by (intro short) simp_all
  next
    case (Inr p)
    obtain n s where p: "p = (n, s)" by fastforce
    note sup = Inr[unfolded p]
    from adjustForSupply_Inr[OF sup a1(1,3)]
    have b: "n + s = 12" "s1 \<le> s" "s \<le> min 5 (int (length S))" "n \<le> int (length N)"
      "n = n1 \<or> n = int (length N)"
      by simp_all
    have s_nonneg: "0 \<le> s" using s0(1) a1(2) b(2) by linarith
    have n_nonneg: "0 \<le> n" using b(1,3) by linarith
    obtain t e2 where t: "applyTailoringRules orc e1 P N S n s = (t, e2)" by fastforce
    note ts = applyTailoringRules_spec[OF ok t n_nonneg s_nonneg]
    define remN where
      "remN = filter (\<lambda>c. \<not> list_ex (\<lambda>selected. c_id selected = c_id c) (national t)) N"
    define remS where
      "remS = filter (\<lambda>c. \<not> list_ex (\<lambda>selected. c_id selected = c_id c) (state t)) S"
    obtain an e3 where an: "selectRandomItems orc e2 remN (remainingNational t) = (an, e3)"
      by fastforce
    obtain as e4 where as: "selectRandomItems orc e3 remS (remainingState t) = (as, e4)"
      by fastforce
    from selectRandomItems_spec[OF ok an] ts(5)
    have an': "mset an \<subseteq># mset remN"
      "int (length an) = min (remainingNational t) (int (length remN))"
      by simp_all
    from selectRandomItems_spec[OF ok as] ts(6)
    have as': "mset as \<subseteq># mset remS"
      "int (length as) = min (remainingState t) (int (length remS))"
      by simp_all
    have pets: "length (national t) + length (state t) = 4"
      if "hasPets P"
        "4 \<le> int (length (filter (\<lambda>c. category c = ''ANIMAL_RELATED'') N))
           + int (length (filter (\<lambda>c. category c = ''ANIMAL_RELATED'') S))"
    proof (rule ts(7)[OF that(1)])
      have le: "int (length (filter (\<lambda>c. category c = ''ANIMAL_RELATED'') N)) \<le> int (length N)"
        by simp
      from a2[OF that] b(2,5) le
      show "4 \<le> min (int (length (filter (\<lambda>c. category c = ''ANIMAL_RELATED'') S))) s
                + min (int (length (filter (\<lambda>c. category c = ''ANIMAL_RELATED'') N))) n"
        by linarith
    qed
    have res: "selectFromPools orc P N S =
         (if int (length (national t @ state t @ an @ as))
               \<noteq> min 12 (int (length N) + int (length S))
          then (Inl (Error (''Selection count mismatch: expected ''
                      @ show_int (min 12 (int (length N) + int (length S)))
                      @ '', got '' @ show_int (int (length (national t @ state t @ an @ as))))),
                e4)
          else (Inr (shuffle_at orc (shuffles e4) (national t @ state t @ an @ as)),
                e4\<lparr>shuffles := Suc (shuffles e4)\<rparr>))"
      using g a sup t an as
      by (simp add: selectFromPools_def m_def remN_def remS_def shuffle_def Let_def)
    show thesis
    proof (rule run[of n s t an as e4])
      show "n + s = 12" "0 \<le> s" "s \<le> min 5 (int (length S))" "n \<le> int (length N)"
        by (fact b(1) s_nonneg b(3) b(4))+
      show "mset (national t) \<subseteq># mset (filter (\<lambda>c. category c = ''ANIMAL_RELATED'') N)"
        "mset (state t) \<subseteq># mset (filter (\<lambda>c. category c = ''ANIMAL_RELATED'') S)"
        "int (length (national t)) + remainingNational t = n"
        "int (length (state t)) + remainingState t = s"
        "0 \<le> remainingNational t" "0 \<le> remainingState t"
        by (fact ts)+
      show "mset an \<subseteq># mset (filter (\<lambda>c. \<not> list_ex (\<lambda>selected. c_id selected = c_id c)
                                         (national t)) N)"
        "int (length an) = min (remainingNational t)
           (int (length (filter (\<lambda>c. \<not> list_ex (\<lambda>selected. c_id selected = c_id c)
                                         (national t)) N)))"
        using an' by (simp_all add: remN_def)
      show "mset as \<subseteq># mset (filter (\<lambda>c. \<not> list_ex (\<lambda>selected. c_id selected = c_id c)
                                         (state t)) S)"
        "int (length as) = min (remainingState t)
           (int (length (filter (\<lambda>c. \<not> list_ex (\<lambda>selected. c_id selected = c_id c)
                                         (state t)) S)))"
        using as' by (simp_all add: remS_def)
      show "length (national t) + length (state t) = 4"
        if "hasPets P"
          "4 \<le> int (length (filter (\<lambda>c. category c = ''ANIMAL_RELATED'') N))
             + int (length (filter (\<lambda>c. category c = ''ANIMAL_RELATED'') S))"
        using pets[OF that] .
      show "selectFromPools orc P N S =
         (if int (length (national t @ state t @ an @ as))
               \<noteq> min 12 (int (length N) + int (length S))
          then (Inl (Error (''Selection count mismatch: expected ''
                      @ show_int (min 12 (int (length N) + int (length S)))
                      @ '', got '' @ show_int (int (length (national t @ state t @ an @ as))))),
                e4)
          else (Inr (shuffle_at orc (shuffles e4) (national t @ state t @ an @ as)),
                e4\<lparr>shuffles := Suc (shuffles e4)\<rparr>))"
        by (fact res)
    qed
  qed
qed

lemma fill_spec:
  assumes d: "distinct (map c_id N)"
    and tn: "mset tn \<subseteq># mset N"
    and an: "mset an \<subseteq># mset (filter (\<lambda>c. \<not> list_ex (\<lambda>selected. c_id selected = c_id c) tn) N)"
    and len: "int (length an) = min r
                (int (length (filter (\<lambda>c. \<not> list_ex (\<lambda>selected. c_id selected = c_id c) tn) N)))"
    and r: "int (length tn) + r = n" and n: "n \<le> int (length N)"
  shows "mset tn + mset an \<subseteq># mset N" and "int (length tn) + int (length an) = n"
proof -
  define remN where "remN = filter (\<lambda>c. \<not> list_ex (\<lambda>selected. c_id selected = c_id c) tn) N"
  have part: "mset remN + mset tn = mset N"
    unfolding remN_def by (rule remaining_mset[OF d tn])
  then have "size (mset remN + mset tn) = size (mset N)" by (simp only:)
  then have sz: "length remN + length tn = length N" by simp
  have "mset tn + mset an \<subseteq># mset tn + mset remN"
    using an unfolding remN_def by simp
  also have "\<dots> = mset N" using part by (simp only: add.commute)
  finally show "mset tn + mset an \<subseteq># mset N" .
  have "r \<le> int (length remN)" using r n sz by linarith
  then have "int (length an) = r" using len unfolding remN_def by simp
  then show "int (length tn) + int (length an) = n" using r by simp
qed

lemma pools_sub_valid:
  "mset (filter (\<lambda>c. featured c = ''NATIONAL'') V)
     + mset (filter (\<lambda>c. featured c = ''STATE'' \<and> c_state c = st) V) \<subseteq># mset V"
proof (induction V)
  case Nil
  then show ?case by simp
next
  case (Cons c V)
  let ?A = "mset (filter (\<lambda>c. featured c = ''NATIONAL'') V)
     + mset (filter (\<lambda>c. featured c = ''STATE'' \<and> c_state c = st) V)"
  have weak: "?A \<subseteq># add_mset c (mset V)"
    using Cons.IH by (rule subset_mset.order_trans) simp
  have strong: "add_mset c ?A \<subseteq># add_mset c (mset V)"
    using Cons.IH by simp
  show ?case
  proof (cases "featured c = ''NATIONAL''")
    case True
    then show ?thesis using strong by simp
  next
    case False
    then show ?thesis using strong weak by simp
  qed
qed

lemma distinct_ids_sub:
  assumes "distinct (map c_id V)" and "mset xs \<subseteq># mset V"
  shows "distinct (map c_id xs)"
proof -
  have "mset (map c_id xs) \<subseteq># mset (map c_id V)"
    using image_mset_subseteq_mono[OF assms(2), of c_id] by simp
  with assms(1) show ?thesis by (rule distinct_sub_mset)
qed

section \<open>Reading the inputs\<close>

lemma first_choices_ok: "oracle_ok first_choices"
  by (simp add: oracle_ok_def first_choices_def)

lemma parse_profile_with_pets: "parseUserProfile profile_with_pets = Inr new_york_pet_owner"
  by (simp add: parseUserProfile_def profile_with_pets_def new_york_pet_owner_def
      toUpperCase_def toUpperCase_char_def)

lemma show_int_numeral [simp]:
  "show_int 0 = ''0''" "show_int 5 = ''5''" "show_int 11 = ''11''" "show_int 12 = ''12''"
  by (simp_all add: show_int_def show_nat_small show_nat_big digit_def)

lemma selectCharities_try_valid:
  assumes "parseUserProfile rawProfile = Inr P"
  shows "selectCharities_try orc (Inr raw) (Inr (rawProfile # others)) =
     (if int (length (filter validateCharity raw)) < 12
      then (Inl (Error (''Insufficient charities: need 12, have ''
                   @ show_int (int (length (filter validateCharity raw))))), no_effects)
      else selectFromPools orc P (nationalPool raw) (statePool P raw))"
  using assms
  by (simp add: selectCharities_try_def selectFromValid_def nationalPool_def statePool_def)

lemma pools_le_valid:
  "length (nationalPool raw) + length (statePool P raw) \<le> length (filter validateCharity raw)"
proof -
  have "size (mset (nationalPool raw) + mset (statePool P raw))
          \<le> size (mset (filter validateCharity raw))"
    unfolding nationalPool_def statePool_def
    by (rule size_mset_mono[OF pools_sub_valid])
  then show ?thesis unfolding size_union size_mset .
qed

section \<open>The inputs of the test suite, evaluated\<close>




lemma valid_boundary: "filter validateCharity boundary_charities = boundary_charities"
  by (simp add: boundary_charities_def charity_row_def validateCharity_def)

lemma national_boundary: "nationalPool boundary_charities = take 8 boundary_charities"
  unfolding nationalPool_def valid_boundary
  by (simp add: boundary_charities_def charity_row_def)

lemma state_boundary: "statePool new_york_pet_owner boundary_charities = drop 8 boundary_charities"
  unfolding statePool_def valid_boundary
  by (simp add: boundary_charities_def charity_row_def new_york_pet_owner_def)

section \<open>Outcomes of the selection\<close>

lemma selectFromPools_Inr:
  assumes ok: "oracle_ok orc" and res: "selectFromPools orc P N S = (Inr result, e)"
  obtains tn ts an as where
    "mset result = mset tn + mset ts + mset an + mset as"
    "mset tn \<subseteq># mset (filter (\<lambda>c. category c = ''ANIMAL_RELATED'') N)"
    "mset ts \<subseteq># mset (filter (\<lambda>c. category c = ''ANIMAL_RELATED'') S)"
    "mset an \<subseteq># mset N" "mset as \<subseteq># mset S"
    "length ts + length as \<le> 5"
    "length result = 12"
    "hasPets P \<Longrightarrow>
       4 \<le> int (length (filter (\<lambda>c. category c = ''ANIMAL_RELATED'') N))
         + int (length (filter (\<lambda>c. category c = ''ANIMAL_RELATED'') S))
       \<Longrightarrow> length tn + length ts = 4"
    "distinct (map c_id N) \<Longrightarrow> mset tn + mset an \<subseteq># mset N"
    "distinct (map c_id S) \<Longrightarrow> mset ts + mset as \<subseteq># mset S"
  using ok
proof (cases rule: selectFromPools_cases[where N=N and S=S and P=P])
  case (short e1)
  with res show ?thesis by simp
next
  case (run n s t an as e4)
  let ?final = "national t @ state t @ an @ as"
  from run(16) res
  have len: "int (length ?final) = min 12 (int (length N) + int (length S))"
    and result: "result = shuffle_at orc (shuffles e4) ?final"
    by (simp_all split: if_splits)
  have perm: "mset result = mset ?final"
    unfolding result using ok by (simp add: oracle_ok_def)
  have "int (length N) + int (length S) \<ge> 12" using run(1,3,4) by linarith
  with len have len12: "int (length ?final) = 12" by simp
  have "size (mset result) = size (mset ?final)" using perm by (simp only:)
  then have lr: "length result = 12" using len12 by simp
  have tnN: "mset (national t) \<subseteq># mset N"
    by (rule subset_mset.order_trans[OF run(5)]) simp
  have tsS: "mset (state t) \<subseteq># mset S"
    by (rule subset_mset.order_trans[OF run(6)]) simp
  have anN: "mset an \<subseteq># mset N"
    by (rule subset_mset.order_trans[OF run(11)]) simp
  have asS: "mset as \<subseteq># mset S"
    by (rule subset_mset.order_trans[OF run(13)]) simp
  have five: "length (state t) + length as \<le> 5"
    using run(14) run(8) run(3) by linarith
  show ?thesis
  proof (rule that[of "national t" "state t" an as])
    show "mset result = mset (national t) + mset (state t) + mset an + mset as"
      using perm by (simp add: ac_simps)
    show "mset (national t) \<subseteq># mset (filter (\<lambda>c. category c = ''ANIMAL_RELATED'') N)"
      "mset (state t) \<subseteq># mset (filter (\<lambda>c. category c = ''ANIMAL_RELATED'') S)"
      by (fact run(5) run(6))+
    show "mset an \<subseteq># mset N" "mset as \<subseteq># mset S" by (fact anN asS)+
    show "length (state t) + length as \<le> 5" by (fact five)
    show "length result = 12" by (fact lr)
    show "length (national t) + length (state t) = 4"
      if "hasPets P"
        "4 \<le> int (length (filter (\<lambda>c. category c = ''ANIMAL_RELATED'') N))
           + int (length (filter (\<lambda>c. category c = ''ANIMAL_RELATED'') S))"
      using run(15)[OF that] .
    show "mset (national t) + mset an \<subseteq># mset N" if "distinct (map c_id N)"
      by (rule fill_spec(1)[OF that tnN run(11) run(12) run(7) run(4)])
    show "mset (state t) + mset as \<subseteq># mset S" if "distinct (map c_id S)"
    proof (rule fill_spec(1)[OF that tsS run(13) run(14) run(8)])
      show "s \<le> int (length S)" using run(3) by simp
    qed
  qed
qed

lemma selectFromPools_distinct_ok:
  assumes ok: "oracle_ok orc"
    and dN: "distinct (map c_id N)" and dS: "distinct (map c_id S)"
    and enough: "12 \<le> int (length N) + min 5 (int (length S))"
  shows "\<exists>result e. selectFromPools orc P N S = (Inr result, e)"
  using ok
proof (cases rule: selectFromPools_cases[where N=N and S=S and P=P])
  case (short e1)
  with enough show ?thesis by simp
next
  case (run n s t an as e4)
  have tnN: "mset (national t) \<subseteq># mset N"
    by (rule subset_mset.order_trans[OF run(5)]) simp
  have tsS: "mset (state t) \<subseteq># mset S"
    by (rule subset_mset.order_trans[OF run(6)]) simp
  have sS: "s \<le> int (length S)" using run(3) by simp
  have ln: "int (length (national t)) + int (length an) = n"
    by (rule fill_spec(2)[OF dN tnN run(11) run(12) run(7) run(4)])
  have ls: "int (length (state t)) + int (length as) = s"
    by (rule fill_spec(2)[OF dS tsS run(13) run(14) run(8) sS])
  have "int (length N) + int (length S) \<ge> 12" using run(1,4) sS by linarith
  then have "int (length (national t @ state t @ an @ as))
               = min 12 (int (length N) + int (length S))"
    using ln ls run(1) by simp
  with run(16) show ?thesis by simp
qed

lemma selectFromPools_supply_error:
  assumes ok: "oracle_ok orc"
    and res: "selectFromPools orc P N S = (Inl (Error (''Insufficient'' @ rest)), e)"
  shows "draws e = 1 \<and> shuffles e = 0
     \<and> int (length N) + min 5 (int (length S)) < 12
     \<and> ''Insufficient'' @ rest = ''Insufficient total charities: need 12, have ''
          @ show_int (int (length N) + min 5 (int (length S)))
          @ '' ('' @ show_int (int (length N))
          @ '' national + '' @ show_int (min 5 (int (length S))) @ '' state)''"
  using ok
proof (cases rule: selectFromPools_cases[where N=N and S=S and P=P])
  case (short e1)
  with res show ?thesis by simp
next
  case (run n s t an as e4)
  from run(16) res show ?thesis by (simp split: if_splits)
qed

section \<open>Runs on the inputs of the test suite\<close>

lemma valid_all_state: "filter validateCharity all_state_charities = all_state_charities"
  by (simp add: all_state_charities_def charity_row_def validateCharity_def)

lemma national_all_state: "nationalPool all_state_charities = []"
  unfolding nationalPool_def valid_all_state
  by (simp add: all_state_charities_def charity_row_def)

lemma state_all_state: "statePool new_york_pet_owner all_state_charities = all_state_charities"
  unfolding statePool_def valid_all_state
  by (simp add: all_state_charities_def charity_row_def new_york_pet_owner_def)

lemma all_state_try:
  "selectCharities_try first_choices (Inr all_state_charities) (Inr [profile_with_pets]) =
     (Inl (Error ''Insufficient total charities: need 12, have 5 (0 national + 5 state)''),
      \<lparr>draws = 1, shuffles = 0\<rparr>)"
proof -
  have len: "length all_state_charities = 12" by (simp add: all_state_charities_def)
  have an: "filter (\<lambda>c. category c = ''ANIMAL_RELATED'') all_state_charities = []"
    by (simp add: all_state_charities_def charity_row_def)
  have "selectFromPools first_choices new_york_pet_owner [] all_state_charities =
     (Inl (Error ''Insufficient total charities: need 12, have 5 (0 national + 5 state)''),
      \<lparr>draws = 1, shuffles = 0\<rparr>)"
    by (simp add: selectFromPools_def getRandomInt_def Math_random_def first_choices_def
        no_effects_def adjustForAnimals_def adjustForSupply_def new_york_pet_owner_def len an)
  then show ?thesis
    unfolding selectCharities_try_valid[OF parse_profile_with_pets]
      national_all_state state_all_state
    by (simp add: valid_all_state len)
qed

lemma all_state_run:
  "selectCharities first_choices (Inr all_state_charities) (Inr [profile_with_pets]) =
     (Inl (Error ''Charity selection failed: Insufficient total charities: need 12, have 5 (0 national + 5 state)''),
      \<lparr>draws = 1, shuffles = 0\<rparr>)"
  by (simp add: selectCharities_def all_state_try)

lemma boundary_run:
  "selectCharities first_choices (Inr boundary_charities) (Inr [profile_with_pets]) =
     (Inr boundary_selection, \<lparr>draws = 2, shuffles = 5\<rparr>)"
proof -
  have len: "length boundary_charities = 12" by (simp add: boundary_charities_def)
  have "selectFromPools first_choices new_york_pet_owner
          (take 8 boundary_charities) (drop 8 boundary_charities) =
     (Inr boundary_selection, \<lparr>draws = 2, shuffles = 5\<rparr>)"
    by (simp add: selectFromPools_def getRandomInt_def Math_random_def first_choices_def
        no_effects_def adjustForAnimals_def adjustForSupply_def new_york_pet_owner_def
        applyTailoringRules_def createTailoringRules_def applyRule_def selectRandomItems_def
        shuffle_def boundary_charities_def boundary_selection_def charity_row_def
        eval_nat_numeral Let_def)
  then show ?thesis
    unfolding selectCharities_def
      selectCharities_try_valid[OF parse_profile_with_pets] national_boundary state_boundary
    by (simp add: valid_boundary len)
qed

lemma selectCharities_Inr:
  assumes "parseUserProfile rawProfile = Inr P"
    and "selectCharities orc (Inr raw) (Inr (rawProfile # others)) = (Inr result, e)"
  shows "selectFromPools orc P (nationalPool raw) (statePool P raw) = (Inr result, e)"
    and "12 \<le> length (filter validateCharity raw)"
  using assms(2) unfolding selectCharities_def selectCharities_try_valid[OF assms(1)]
  by (auto split: if_splits sum.splits prod.splits)

lemma selectCharities_of_pools:
  assumes "parseUserProfile rawProfile = Inr P"
    and "12 \<le> length (filter validateCharity raw)"
  shows "selectCharities orc (Inr raw) (Inr (rawProfile # others)) =
     (case selectFromPools orc P (nationalPool raw) (statePool P raw) of
        (Inl err, e) \<Rightarrow>
          (Inl (Error (''Charity selection failed: ''
                  @ (if instanceof_Error err then message err else ''Unknown error''))), e)
      | (Inr result, e) \<Rightarrow> (Inr result, e))"
  using assms(2) unfolding selectCharities_def selectCharities_try_valid[OF assms(1)]
  by simp

lemma pools_distinct:
  assumes "distinct (map c_id (filter validateCharity raw))"
  shows "distinct (map c_id (nationalPool raw))" "distinct (map c_id (statePool P raw))"
  unfolding nationalPool_def statePool_def by (rule distinct_map_filter[OF assms])+

lemma sub_mset_same_size:
  assumes "A \<subseteq># B" and "size A = size B"
  shows "A = B"
proof (rule ccontr)
  assume "A \<noteq> B"
  with assms(1) have "A \<subset># B" by (simp add: subset_mset.less_le)
  then have "size A < size B" by (rule mset_subset_size)
  with assms(2) show False by simp
qed

text \<open>
  Why the ids have to be distinct: the rows already chosen are recognised by their id, so a
  row that shares its id with a chosen row leaves the pool with it, and the pool can run
  short. On \<open>duplicate_id_charities\<close> the selection assembles 11 rows and the final check
  throws.
\<close>

lemma valid_duplicate: "filter validateCharity duplicate_id_charities = duplicate_id_charities"
  by (simp add: duplicate_id_charities_def boundary_charities_def charity_row_def
      validateCharity_def)

lemma national_duplicate: "nationalPool duplicate_id_charities = take 8 duplicate_id_charities"
  unfolding nationalPool_def valid_duplicate
  by (simp add: duplicate_id_charities_def boundary_charities_def charity_row_def)

lemma state_duplicate:
  "statePool new_york_pet_owner duplicate_id_charities = drop 8 duplicate_id_charities"
  unfolding statePool_def valid_duplicate
  by (simp add: duplicate_id_charities_def boundary_charities_def charity_row_def
      new_york_pet_owner_def)

lemma duplicate_ids_try:
  "selectCharities_try first_choices (Inr duplicate_id_charities) (Inr [profile_with_pets]) =
     (Inl (Error ''Selection count mismatch: expected 12, got 11''),
      \<lparr>draws = 2, shuffles = 4\<rparr>)"
proof -
  have len: "length duplicate_id_charities = 12"
    by (simp add: duplicate_id_charities_def boundary_charities_def)
  have "selectFromPools first_choices new_york_pet_owner
          (take 8 duplicate_id_charities) (drop 8 duplicate_id_charities) =
     (Inl (Error ''Selection count mismatch: expected 12, got 11''),
      \<lparr>draws = 2, shuffles = 4\<rparr>)"
    by (simp add: selectFromPools_def getRandomInt_def Math_random_def first_choices_def
        no_effects_def adjustForAnimals_def adjustForSupply_def new_york_pet_owner_def
        applyTailoringRules_def createTailoringRules_def applyRule_def selectRandomItems_def
        shuffle_def duplicate_id_charities_def boundary_charities_def charity_row_def
        eval_nat_numeral Let_def)
  then show ?thesis
    unfolding selectCharities_try_valid[OF parse_profile_with_pets]
      national_duplicate state_duplicate
    by (simp add: valid_duplicate len)
qed

lemma duplicate_ids_reach_count_mismatch:
  "selectCharities first_choices (Inr duplicate_id_charities) (Inr [profile_with_pets]) =
     (Inl (Error ''Charity selection failed: Selection count mismatch: expected 12, got 11''),
      \<lparr>draws = 2, shuffles = 4\<rparr>)"
  by (simp add: selectCharities_def duplicate_ids_try)

lemma parse_corrupted_profile:
  "parseUserProfile corrupted_profile =
     Inl (Error ''Failed to parse user profile: Profile missing required fields (id, name, state)'')"
  by (simp add: parseUserProfile_def corrupted_profile_def)

section \<open>The properties\<close>

text \<open>
  C1, as the code has it. For every valid input (candidates with pairwise distinct ids, a
  profile that parses) in which the national pool together with at most 5 rows of the
  state pool reaches 12, \<open>selectCharities\<close> returns a result of exactly 12 items: it
  neither returns fewer nor throws.
\<close>

theorem selectCharities_returns_twelve:
  assumes "oracle_ok orc"
    and "parseUserProfile rawProfile = Inr userProfile"
    and "distinct (map c_id (filter validateCharity rawCharities))"
    and "12 \<le> int (length (nationalPool rawCharities))
              + min 5 (int (length (statePool userProfile rawCharities)))"
  shows "\<exists>result e. selectCharities orc (Inr rawCharities) (Inr (rawProfile # others))
                        = (Inr result, e) \<and> length result = 12"
proof -
  let ?N = "nationalPool rawCharities" and ?S = "statePool userProfile rawCharities"
  from selectFromPools_distinct_ok[OF assms(1) pools_distinct[OF assms(3)] assms(4)]
  obtain result e where r: "selectFromPools orc userProfile ?N ?S = (Inr result, e)"
    by blast
  from selectFromPools_Inr[OF assms(1) r] have len: "length result = 12" by blast
  have "12 \<le> length ?N + length ?S" using assms(4) by linarith
  with pools_le_valid[of rawCharities userProfile]
  have v: "12 \<le> length (filter validateCharity rawCharities)" by linarith
  show ?thesis
    unfolding selectCharities_of_pools[OF assms(2) v] r using len by simp
qed

theorem selectCharities_returns_twelve_witness:
  "oracle_ok first_choices
   \<and> parseUserProfile profile_with_pets = Inr new_york_pet_owner
   \<and> distinct (map c_id (filter validateCharity boundary_charities))
   \<and> 12 \<le> int (length (nationalPool boundary_charities))
            + min 5 (int (length (statePool new_york_pet_owner boundary_charities)))
   \<and> (\<exists>result e. selectCharities first_choices (Inr boundary_charities)
                      (Inr [profile_with_pets]) = (Inr result, e) \<and> length result = 12)"
proof -
  have d: "distinct (map c_id (filter validateCharity boundary_charities))"
    unfolding valid_boundary by (simp add: boundary_charities_def charity_row_def)
  have p: "12 \<le> int (length (nationalPool boundary_charities))
            + min 5 (int (length (statePool new_york_pet_owner boundary_charities)))"
    unfolding national_boundary state_boundary by (simp add: boundary_charities_def)
  from selectCharities_returns_twelve[OF first_choices_ok parse_profile_with_pets d p, of "[]"]
  show ?thesis using first_choices_ok parse_profile_with_pets d p by simp
qed

text \<open>
  C1, as the specification words it (sufficient supply: at least 12 eligible candidates),
  fails: the twelve New York rows of \<open>temp-all-state.csv\<close> are 12 eligible candidates with
  distinct ids for a New York profile, and the call is rejected, since at most 5 state
  rows may be selected and no national row exists.
\<close>

theorem twelve_eligible_rows_rejected:
  "oracle_ok first_choices
   \<and> parseUserProfile profile_with_pets = Inr new_york_pet_owner
   \<and> distinct (map c_id (filter validateCharity all_state_charities))
   \<and> length (nationalPool all_state_charities)
       + length (statePool new_york_pet_owner all_state_charities) = 12
   \<and> selectCharities first_choices (Inr all_state_charities) (Inr [profile_with_pets]) =
       (Inl (Error ''Charity selection failed: Insufficient total charities: need 12, have 5 (0 national + 5 state)''),
        \<lparr>draws = 1, shuffles = 0\<rparr>)"
proof -
  have d: "distinct (map c_id (filter validateCharity all_state_charities))"
    unfolding valid_all_state by (simp add: all_state_charities_def charity_row_def)
  have l: "length all_state_charities = 12" by (simp add: all_state_charities_def)
  show ?thesis
    using first_choices_ok parse_profile_with_pets d all_state_run
    by (simp add: national_all_state state_all_state l)
qed

text \<open>
  C2. If the profile has pets and the national pool and the state pool of the profile's
  state hold at least 4 \<open>ANIMAL_RELATED\<close> charities between them, every result that
  \<open>selectCharities\<close> returns contains at least 4 items of category \<open>ANIMAL_RELATED\<close>.
\<close>

theorem four_animal_charities_for_pet_owners:
  assumes "oracle_ok orc"
    and "parseUserProfile rawProfile = Inr userProfile"
    and "hasPets userProfile"
    and "4 \<le> length (filter (\<lambda>c. category c = ''ANIMAL_RELATED'') (nationalPool rawCharities))
             + length (filter (\<lambda>c. category c = ''ANIMAL_RELATED'')
                         (statePool userProfile rawCharities))"
    and "selectCharities orc (Inr rawCharities) (Inr (rawProfile # others)) = (Inr result, e)"
  shows "4 \<le> length (filter (\<lambda>c. category c = ''ANIMAL_RELATED'') result)"
proof -
  let ?A = "\<lambda>c. category c = ''ANIMAL_RELATED''"
  let ?N = "nationalPool rawCharities" and ?S = "statePool userProfile rawCharities"
  have r: "selectFromPools orc userProfile ?N ?S = (Inr result, e)"
    by (rule selectCharities_Inr(1)[OF assms(2,5)])
  have four: "4 \<le> int (length (filter ?A ?N)) + int (length (filter ?A ?S))"
    using assms(4) by linarith
  show ?thesis
  proof (rule selectFromPools_Inr[OF assms(1) r])
    fix tn ts an as
    assume m: "mset result = mset tn + mset ts + mset an + mset as"
      and tn: "mset tn \<subseteq># mset (filter ?A ?N)" and ts: "mset ts \<subseteq># mset (filter ?A ?S)"
      and pets: "hasPets userProfile \<Longrightarrow>
         4 \<le> int (length (filter ?A ?N)) + int (length (filter ?A ?S))
         \<Longrightarrow> length tn + length ts = 4"
    have "set tn \<subseteq> set (filter ?A ?N)" using set_mset_mono[OF tn] by simp
    then have all_tn: "filter ?A tn = tn" by (intro filter_True) auto
    have "set ts \<subseteq> set (filter ?A ?S)" using set_mset_mono[OF ts] by simp
    then have all_ts: "filter ?A ts = ts" by (intro filter_True) auto
    have "mset result = mset (tn @ ts @ an @ as)" unfolding m by simp
    then have "mset (filter ?A result) = mset (filter ?A (tn @ ts @ an @ as))"
      by (simp only: mset_filter)
    then have "length (filter ?A result) = length (filter ?A (tn @ ts @ an @ as))"
      by (rule mset_eq_length)
    also have "\<dots> = length tn + length ts + length (filter ?A an) + length (filter ?A as)"
      by (simp add: all_tn all_ts)
    finally show ?thesis using pets[OF assms(3) four] by linarith
  qed
qed

theorem four_animal_charities_for_pet_owners_witness:
  "oracle_ok first_choices
   \<and> parseUserProfile profile_with_pets = Inr new_york_pet_owner
   \<and> hasPets new_york_pet_owner
   \<and> 4 \<le> length (filter (\<lambda>c. category c = ''ANIMAL_RELATED'')
                  (nationalPool boundary_charities))
         + length (filter (\<lambda>c. category c = ''ANIMAL_RELATED'')
                     (statePool new_york_pet_owner boundary_charities))
   \<and> selectCharities first_choices (Inr boundary_charities) (Inr [profile_with_pets])
       = (Inr boundary_selection, \<lparr>draws = 2, shuffles = 5\<rparr>)
   \<and> 4 \<le> length (filter (\<lambda>c. category c = ''ANIMAL_RELATED'') boundary_selection)"
proof -
  have h: "hasPets new_york_pet_owner" by (simp add: new_york_pet_owner_def)
  have a: "4 \<le> length (filter (\<lambda>c. category c = ''ANIMAL_RELATED'')
                  (nationalPool boundary_charities))
         + length (filter (\<lambda>c. category c = ''ANIMAL_RELATED'')
                     (statePool new_york_pet_owner boundary_charities))"
    unfolding national_boundary state_boundary
    by (simp add: boundary_charities_def charity_row_def)
  note t = four_animal_charities_for_pet_owners[OF first_choices_ok parse_profile_with_pets h a
      boundary_run]
  show ?thesis
    by (intro conjI first_choices_ok parse_profile_with_pets h a boundary_run t)
qed



text \<open>
  C4. In every result that \<open>selectCharities\<close> returns, at most 5 items have \<open>featured\<close>
  equal to \<open>STATE\<close>, and the state of each of them is the state of the profile.
\<close>

theorem state_charities_bounded_and_matching:
  assumes "oracle_ok orc"
    and "parseUserProfile rawProfile = Inr userProfile"
    and "selectCharities orc (Inr rawCharities) (Inr (rawProfile # others)) = (Inr result, e)"
  shows "length (filter (\<lambda>c. featured c = ''STATE'') result) \<le> 5
         \<and> (\<forall>c \<in> set result. featured c = ''STATE'' \<longrightarrow> c_state c = p_state userProfile)"
proof -
  let ?St = "\<lambda>c. featured c = ''STATE''"
  let ?N = "nationalPool rawCharities" and ?S = "statePool userProfile rawCharities"
  have r: "selectFromPools orc userProfile ?N ?S = (Inr result, e)"
    by (rule selectCharities_Inr(1)[OF assms(2,3)])
  have natN: "featured c = ''NATIONAL''" if "c \<in> set ?N" for c
    using that by (simp add: nationalPool_def)
  have stS: "c_state c = p_state userProfile" if "c \<in> set ?S" for c
    using that by (simp add: statePool_def)
  show ?thesis
  proof (rule selectFromPools_Inr[OF assms(1) r])
    fix tn ts an as
    assume m: "mset result = mset tn + mset ts + mset an + mset as"
      and tn: "mset tn \<subseteq># mset (filter (\<lambda>c. category c = ''ANIMAL_RELATED'') ?N)"
      and ts: "mset ts \<subseteq># mset (filter (\<lambda>c. category c = ''ANIMAL_RELATED'') ?S)"
      and an: "mset an \<subseteq># mset ?N" and as: "mset as \<subseteq># mset ?S"
      and five: "length ts + length as \<le> 5"
    have "set tn \<subseteq> set (filter (\<lambda>c. category c = ''ANIMAL_RELATED'') ?N)"
      using set_mset_mono[OF tn] by simp
    then have tnN: "set tn \<subseteq> set ?N" by auto
    have "set ts \<subseteq> set (filter (\<lambda>c. category c = ''ANIMAL_RELATED'') ?S)"
      using set_mset_mono[OF ts] by simp
    then have tsS: "set ts \<subseteq> set ?S" by auto
    have anN: "set an \<subseteq> set ?N" using set_mset_mono[OF an] by simp
    have asS: "set as \<subseteq> set ?S" using set_mset_mono[OF as] by simp
    have "\<forall>c \<in> set tn. \<not> ?St c" using tnN natN by fastforce
    then have no_tn: "filter ?St tn = []" by (simp add: filter_empty_conv)
    have "\<forall>c \<in> set an. \<not> ?St c" using anN natN by fastforce
    then have no_an: "filter ?St an = []" by (simp add: filter_empty_conv)
    have mr: "mset result = mset (tn @ ts @ an @ as)" unfolding m by simp
    then have "mset (filter ?St result) = mset (filter ?St (tn @ ts @ an @ as))"
      by (simp only: mset_filter)
    then have "length (filter ?St result) = length (filter ?St (tn @ ts @ an @ as))"
      by (rule mset_eq_length)
    also have "\<dots> = length (filter ?St ts) + length (filter ?St as)"
      by (simp add: no_tn no_an)
    also have "\<dots> \<le> length ts + length as"
      by (rule add_mono) simp_all
    finally have bound: "length (filter ?St result) \<le> 5" using five by linarith
    have sr: "set result = set (tn @ ts @ an @ as)" by (rule mset_eq_setD[OF mr])
    have "c_state c = p_state userProfile"
      if c: "c \<in> set result" and f: "featured c = ''STATE''" for c
    proof -
      from c sr have "c \<in> set tn \<or> c \<in> set ts \<or> c \<in> set an \<or> c \<in> set as" by simp
      moreover have "c \<notin> set ?N" using natN[of c] f by auto
      ultimately have "c \<in> set ?S" using tnN tsS anN asS by blast
      then show ?thesis by (rule stS)
    qed
    with bound show ?thesis by blast
  qed
qed

theorem state_charities_bounded_and_matching_witness:
  "oracle_ok first_choices
   \<and> parseUserProfile profile_with_pets = Inr new_york_pet_owner
   \<and> selectCharities first_choices (Inr boundary_charities) (Inr [profile_with_pets])
       = (Inr boundary_selection, \<lparr>draws = 2, shuffles = 5\<rparr>)
   \<and> length (filter (\<lambda>c. featured c = ''STATE'') boundary_selection) \<le> 5
   \<and> list_all (\<lambda>c. featured c \<noteq> ''STATE'' \<or> c_state c = p_state new_york_pet_owner)
        boundary_selection"
proof -
  note t = state_charities_bounded_and_matching[OF first_choices_ok parse_profile_with_pets
      boundary_run]
  have "list_all (\<lambda>c. featured c \<noteq> ''STATE'' \<or> c_state c = p_state new_york_pet_owner)
        boundary_selection"
    unfolding list_all_iff using t by blast
  with t first_choices_ok parse_profile_with_pets boundary_run show ?thesis by blast
qed

text \<open>
  C5. When the ids of the valid candidates are pairwise distinct, every result that
  \<open>selectCharities\<close> returns has pairwise distinct ids, and each of its items is an
  eligible candidate: a valid row that is featured nationally, or featured in the state of
  the profile.
\<close>

theorem result_distinct_and_eligible:
  assumes "oracle_ok orc"
    and "parseUserProfile rawProfile = Inr userProfile"
    and "distinct (map c_id (filter validateCharity rawCharities))"
    and "selectCharities orc (Inr rawCharities) (Inr (rawProfile # others)) = (Inr result, e)"
  shows "distinct (map c_id result)
         \<and> set result \<subseteq> set (nationalPool rawCharities)
                          \<union> set (statePool userProfile rawCharities)"
proof -
  let ?N = "nationalPool rawCharities" and ?S = "statePool userProfile rawCharities"
  have r: "selectFromPools orc userProfile ?N ?S = (Inr result, e)"
    by (rule selectCharities_Inr(1)[OF assms(2,4)])
  note d = pools_distinct[OF assms(3)]
  show ?thesis
  proof (rule selectFromPools_Inr[OF assms(1) r])
    fix tn ts an as
    assume m: "mset result = mset tn + mset ts + mset an + mset as"
      and n: "distinct (map c_id ?N) \<Longrightarrow> mset tn + mset an \<subseteq># mset ?N"
      and s: "distinct (map c_id ?S) \<Longrightarrow> mset ts + mset as \<subseteq># mset ?S"
    have "mset result = (mset tn + mset an) + (mset ts + mset as)"
      unfolding m by (simp add: ac_simps)
    also have "\<dots> \<subseteq># mset ?N + mset ?S"
      by (rule subset_mset.add_mono[OF n[OF d(1)] s[OF d(2)]])
    finally have sub: "mset result \<subseteq># mset ?N + mset ?S" .
    have "mset ?N + mset ?S \<subseteq># mset (filter validateCharity rawCharities)"
      unfolding nationalPool_def statePool_def by (rule pools_sub_valid)
    with sub have "mset result \<subseteq># mset (filter validateCharity rawCharities)"
      by (rule subset_mset.order_trans)
    then have dist: "distinct (map c_id result)"
      by (rule distinct_ids_sub[OF assms(3)])
    have "set_mset (mset result) \<subseteq> set_mset (mset ?N + mset ?S)"
      by (rule set_mset_mono[OF sub])
    then have "set result \<subseteq> set ?N \<union> set ?S" by simp
    with dist show ?thesis by blast
  qed
qed

theorem result_distinct_and_eligible_witness:
  "oracle_ok first_choices
   \<and> parseUserProfile profile_with_pets = Inr new_york_pet_owner
   \<and> distinct (map c_id (filter validateCharity boundary_charities))
   \<and> selectCharities first_choices (Inr boundary_charities) (Inr [profile_with_pets])
       = (Inr boundary_selection, \<lparr>draws = 2, shuffles = 5\<rparr>)
   \<and> distinct (map c_id boundary_selection)
   \<and> set boundary_selection \<subseteq> set (nationalPool boundary_charities)
        \<union> set (statePool new_york_pet_owner boundary_charities)"
proof -
  have d: "distinct (map c_id (filter validateCharity boundary_charities))"
    unfolding valid_boundary by (simp add: boundary_charities_def charity_row_def)
  note t = result_distinct_and_eligible[OF first_choices_ok parse_profile_with_pets d
      boundary_run]
  with first_choices_ok parse_profile_with_pets d boundary_run show ?thesis by blast
qed

text \<open>
  C6. For every valid input whose valid candidates have pairwise distinct ids and whose
  profile parses, the final count check of \<open>selectCharities\<close> never fails: the call either
  returns a result whose length is the expected count
  \<open>min 12 (national pool + state pool)\<close>, or it rejects with one of the two supply errors;
  it never rejects with \<open>Selection count mismatch\<close>.
\<close>

theorem count_mismatch_unreachable:
  assumes "oracle_ok orc"
    and "parseUserProfile rawProfile = Inr userProfile"
    and "distinct (map c_id (filter validateCharity rawCharities))"
  shows "((\<exists>result e. selectCharities_try orc (Inr rawCharities) (Inr (rawProfile # others))
                        = (Inr result, e)
              \<and> int (length result)
                  = min 12 (int (length (nationalPool rawCharities))
                            + int (length (statePool userProfile rawCharities))))
          \<or> (\<exists>rest e. selectCharities_try orc (Inr rawCharities) (Inr (rawProfile # others))
                        = (Inl (Error (''Insufficient'' @ rest)), e)))
         \<and> (\<nexists>rest e. selectCharities_try orc (Inr rawCharities) (Inr (rawProfile # others))
                        = (Inl (Error (''Selection count mismatch'' @ rest)), e))"
proof -
  let ?N = "nationalPool rawCharities" and ?S = "statePool userProfile rawCharities"
  let ?run = "selectCharities_try orc (Inr rawCharities) (Inr (rawProfile # others))"
  have out: "(\<exists>result e. ?run = (Inr result, e)
              \<and> int (length result) = min 12 (int (length ?N) + int (length ?S)))
          \<or> (\<exists>rest e. ?run = (Inl (Error (''Insufficient'' @ rest)), e))"
  proof (cases "length (filter validateCharity rawCharities) < 12")
    case True
    then show ?thesis
      unfolding selectCharities_try_valid[OF assms(2)] by simp
  next
    case False
    then have run: "?run = selectFromPools orc userProfile ?N ?S"
      unfolding selectCharities_try_valid[OF assms(2)] by simp
    from assms(1) show ?thesis
    proof (cases rule: selectFromPools_cases[where N="?N" and S="?S" and P=userProfile])
      case (short e1)
      then show ?thesis unfolding run by simp
    next
      case (run n s t an as e4)
      then have enough: "12 \<le> int (length ?N) + min 5 (int (length ?S))" by linarith
      from selectFromPools_distinct_ok[OF assms(1) pools_distinct[OF assms(3)] enough]
      obtain result e where r: "selectFromPools orc userProfile ?N ?S = (Inr result, e)"
        by blast
      have "length result = 12"
        by (rule selectFromPools_Inr[OF assms(1) r])
      moreover have "12 \<le> int (length ?N) + int (length ?S)" using enough by linarith
      ultimately have "int (length result) = min 12 (int (length ?N) + int (length ?S))"
        by simp
      with r show ?thesis unfolding \<open>?run = selectFromPools orc userProfile ?N ?S\<close> by blast
    qed
  qed
  have "\<nexists>rest e. ?run = (Inl (Error (''Selection count mismatch'' @ rest)), e)"
    using out by auto
  with out show ?thesis by blast
qed

theorem count_mismatch_unreachable_witness:
  "oracle_ok first_choices
   \<and> parseUserProfile profile_with_pets = Inr new_york_pet_owner
   \<and> distinct (map c_id (filter validateCharity boundary_charities))
   \<and> ((\<exists>result e. selectCharities_try first_choices (Inr boundary_charities)
                      (Inr [profile_with_pets]) = (Inr result, e)
              \<and> int (length result)
                  = min 12 (int (length (nationalPool boundary_charities))
                            + int (length (statePool new_york_pet_owner boundary_charities))))
          \<or> (\<exists>rest e. selectCharities_try first_choices (Inr boundary_charities)
                        (Inr [profile_with_pets]) = (Inl (Error (''Insufficient'' @ rest)), e)))
   \<and> (\<nexists>rest e. selectCharities_try first_choices (Inr boundary_charities)
                    (Inr [profile_with_pets])
                  = (Inl (Error (''Selection count mismatch'' @ rest)), e))"
proof -
  have d: "distinct (map c_id (filter validateCharity boundary_charities))"
    unfolding valid_boundary by (simp add: boundary_charities_def charity_row_def)
  note t = count_mismatch_unreachable[OF first_choices_ok parse_profile_with_pets d, of "[]"]
  show ?thesis
    by (intro conjI first_choices_ok parse_profile_with_pets d t[THEN conjunct1]
        t[THEN conjunct2])
qed




text \<open>
  C8, as the code has it. When \<open>selectCharities\<close> aborts with the shortfall error of the
  capacity plan (\<open>Insufficient total charities\<close>), exactly one random number has been
  drawn, the one of \<open>getRandomInt\<close> that sizes the state share; no coin has been flipped for
  a tailoring rule and nothing has been shuffled. The message does not depend on that
  number: it names the size of the national pool and the state share \<open>min 5\<close> of the state
  pool.
\<close>

theorem capacity_abort_after_one_draw:
  assumes "oracle_ok orc"
    and "parseUserProfile rawProfile = Inr userProfile"
    and "selectCharities orc (Inr rawCharities) (Inr (rawProfile # others))
           = (Inl (Error (''Charity selection failed: Insufficient total charities'' @ rest)), e)"
  shows "draws e = 1 \<and> shuffles e = 0
         \<and> ''Insufficient total charities'' @ rest
             = ''Insufficient total charities: need 12, have ''
               @ show_int (int (length (nationalPool rawCharities))
                           + min 5 (int (length (statePool userProfile rawCharities))))
               @ '' ('' @ show_int (int (length (nationalPool rawCharities)))
               @ '' national + ''
               @ show_int (min 5 (int (length (statePool userProfile rawCharities))))
               @ '' state)''"
proof (cases "length (filter validateCharity rawCharities) < 12")
  case True
  with assms(3) show ?thesis
    by (simp add: selectCharities_def selectCharities_try_valid[OF assms(2)])
next
  case False
  then have v: "12 \<le> length (filter validateCharity rawCharities)" by simp
  let ?N = "nationalPool rawCharities" and ?S = "statePool userProfile rawCharities"
  from assms(1) show ?thesis
  proof (cases rule: selectFromPools_cases[where N="?N" and S="?S" and P=userProfile])
    case (short e1)
    with assms(3) show ?thesis
      unfolding selectCharities_of_pools[OF assms(2) v] by simp
  next
    case (run n s t an as e4)
    from assms(3) have False
      unfolding selectCharities_of_pools[OF assms(2) v] run(16) by (simp split: if_splits)
    then show ?thesis ..
  qed
qed

theorem capacity_abort_after_one_draw_witness:
  "oracle_ok first_choices
   \<and> parseUserProfile profile_with_pets = Inr new_york_pet_owner
   \<and> selectCharities first_choices (Inr all_state_charities) (Inr [profile_with_pets])
       = (Inl (Error (''Charity selection failed: Insufficient total charities''
                       @ '': need 12, have 5 (0 national + 5 state)'')),
          \<lparr>draws = 1, shuffles = 0\<rparr>)
   \<and> draws \<lparr>draws = 1, shuffles = 0\<rparr> = 1 \<and> shuffles \<lparr>draws = 1, shuffles = 0\<rparr> = 0
   \<and> ''Insufficient total charities'' @ '': need 12, have 5 (0 national + 5 state)''
       = ''Insufficient total charities: need 12, have ''
         @ show_int (int (length (nationalPool all_state_charities))
                     + min 5 (int (length (statePool new_york_pet_owner all_state_charities))))
         @ '' ('' @ show_int (int (length (nationalPool all_state_charities)))
         @ '' national + ''
         @ show_int (min 5 (int (length (statePool new_york_pet_owner all_state_charities))))
         @ '' state)''"
proof -
  have h: "selectCharities first_choices (Inr all_state_charities) (Inr [profile_with_pets])
       = (Inl (Error (''Charity selection failed: Insufficient total charities''
                       @ '': need 12, have 5 (0 national + 5 state)'')),
          \<lparr>draws = 1, shuffles = 0\<rparr>)"
    using all_state_run by simp
  note t = capacity_abort_after_one_draw[OF first_choices_ok parse_profile_with_pets h]
  show ?thesis
    by (intro conjI first_choices_ok parse_profile_with_pets h t[THEN conjunct1]
        t[THEN conjunct2, THEN conjunct1] t[THEN conjunct2, THEN conjunct2])
qed

text \<open>
  C8, as the specification words it (no random draw before the abort), fails: on the twelve
  New York rows of \<open>temp-all-state.csv\<close> the call aborts with the shortfall error of the
  capacity plan, and by then \<open>Math.random()\<close> has been called once.
\<close>

theorem capacity_abort_not_before_first_draw:
  "fst (selectCharities first_choices (Inr all_state_charities) (Inr [profile_with_pets]))
     = Inl (Error ''Charity selection failed: Insufficient total charities: need 12, have 5 (0 national + 5 state)'')
   \<and> draws (snd (selectCharities first_choices (Inr all_state_charities)
                    (Inr [profile_with_pets]))) = 1"
  by (simp add: all_state_run)

text \<open>
  C9, as the code has it. For every input with exactly 12 eligible candidates, 8 in the
  national pool and 4 in the state pool of the profile's state, whose ids are pairwise
  distinct within the national pool and within the state pool, \<open>selectCharities\<close>
  succeeds and its result is made of all 12 of them, each once.
\<close>

theorem twelve_eligible_all_selected:
  assumes "oracle_ok orc"
    and "parseUserProfile rawProfile = Inr userProfile"
    and "distinct (map c_id (nationalPool rawCharities))"
    and "distinct (map c_id (statePool userProfile rawCharities))"
    and "length (nationalPool rawCharities) = 8"
    and "length (statePool userProfile rawCharities) = 4"
  shows "\<exists>result e. selectCharities orc (Inr rawCharities) (Inr (rawProfile # others))
                        = (Inr result, e)
           \<and> mset result = mset (nationalPool rawCharities)
                             + mset (statePool userProfile rawCharities)"
proof -
  let ?N = "nationalPool rawCharities" and ?S = "statePool userProfile rawCharities"
  have enough: "12 \<le> int (length ?N) + min 5 (int (length ?S))"
    using assms(5,6) by simp
  from selectFromPools_distinct_ok[OF assms(1) assms(3) assms(4) enough]
  obtain result e where r: "selectFromPools orc userProfile ?N ?S = (Inr result, e)"
    by blast
  have all: "mset result = mset ?N + mset ?S"
  proof (rule selectFromPools_Inr[OF assms(1) r])
    fix tn ts an as
    assume m: "mset result = mset tn + mset ts + mset an + mset as"
      and len: "length result = 12"
      and n: "distinct (map c_id ?N) \<Longrightarrow> mset tn + mset an \<subseteq># mset ?N"
      and s: "distinct (map c_id ?S) \<Longrightarrow> mset ts + mset as \<subseteq># mset ?S"
    have "mset result = (mset tn + mset an) + (mset ts + mset as)"
      unfolding m by (simp add: ac_simps)
    also have "\<dots> \<subseteq># mset ?N + mset ?S"
      by (rule subset_mset.add_mono[OF n[OF assms(3)] s[OF assms(4)]])
    finally have sub: "mset result \<subseteq># mset ?N + mset ?S" .
    have "size (mset result) = size (mset ?N + mset ?S)"
      using len assms(5,6) by simp
    with sub show "mset result = mset ?N + mset ?S" by (rule sub_mset_same_size)
  qed
  have "12 \<le> length ?N + length ?S" using assms(5,6) by simp
  with pools_le_valid[of rawCharities userProfile]
  have v: "12 \<le> length (filter validateCharity rawCharities)" by linarith
  show ?thesis
    unfolding selectCharities_of_pools[OF assms(2) v] r using all by simp
qed

theorem twelve_eligible_all_selected_witness:
  "oracle_ok first_choices
   \<and> parseUserProfile profile_with_pets = Inr new_york_pet_owner
   \<and> distinct (map c_id (nationalPool boundary_charities))
   \<and> distinct (map c_id (statePool new_york_pet_owner boundary_charities))
   \<and> length (nationalPool boundary_charities) = 8
   \<and> length (statePool new_york_pet_owner boundary_charities) = 4
   \<and> (\<exists>result e. selectCharities first_choices (Inr boundary_charities)
                      (Inr [profile_with_pets]) = (Inr result, e)
           \<and> mset result = mset (nationalPool boundary_charities)
                             + mset (statePool new_york_pet_owner boundary_charities))"
proof -
  have dn: "distinct (map c_id (nationalPool boundary_charities))"
    unfolding national_boundary by (simp add: boundary_charities_def charity_row_def)
  have ds: "distinct (map c_id (statePool new_york_pet_owner boundary_charities))"
    unfolding state_boundary by (simp add: boundary_charities_def charity_row_def)
  have n: "length (nationalPool boundary_charities) = 8"
    unfolding national_boundary by (simp add: boundary_charities_def)
  have s: "length (statePool new_york_pet_owner boundary_charities) = 4"
    unfolding state_boundary by (simp add: boundary_charities_def)
  note t = twelve_eligible_all_selected[OF first_choices_ok parse_profile_with_pets dn ds n s,
      of "[]"]
  show ?thesis by (intro conjI first_choices_ok parse_profile_with_pets dn ds n s t)
qed

text \<open>
  C9, as the specification words it (every input with 8 national and 4 matching state
  candidates), fails when two candidates of a pool share an id. In
  \<open>duplicate_id_charities\<close> the seventh and the eighth national row both have the id
  \<open>7\<close>; the pools hold 8 and 4 rows. The tailoring rule picks the seventh row, the filter
  of line 223 then drops the eighth with it, 11 rows are assembled and the final check
  throws.
\<close>

theorem twelve_eligible_with_shared_id_rejected:
  "oracle_ok first_choices
   \<and> parseUserProfile profile_with_pets = Inr new_york_pet_owner
   \<and> length (nationalPool duplicate_id_charities) = 8
   \<and> length (statePool new_york_pet_owner duplicate_id_charities) = 4
   \<and> selectCharities first_choices (Inr duplicate_id_charities) (Inr [profile_with_pets]) =
       (Inl (Error ''Charity selection failed: Selection count mismatch: expected 12, got 11''),
        \<lparr>draws = 2, shuffles = 4\<rparr>)"
proof -
  have l: "length duplicate_id_charities = 12"
    by (simp add: duplicate_id_charities_def boundary_charities_def)
  have n: "length (nationalPool duplicate_id_charities) = 8"
    unfolding national_duplicate by (simp add: l)
  have s: "length (statePool new_york_pet_owner duplicate_id_charities) = 4"
    unfolding state_duplicate by (simp add: l)
  show ?thesis
    by (intro conjI first_choices_ok parse_profile_with_pets n s
        duplicate_ids_reach_count_mismatch)
qed

text \<open>
  C10. Every error raised in the \<open>try\<close> block of \<open>selectCharities\<close>, whatever its kind and
  its class, reaches the caller as one plain \<open>Error\<close> whose message is
  \<open>Charity selection failed: \<close> followed by the message of the error raised. The class of
  the error raised is not passed on, so the caller can tell a supply failure from a profile
  or an invariant failure by this text only. (A thrown value that is not an \<open>Error\<close> has no
  message to pass on; the text after the prefix is then \<open>Unknown error\<close>.)
\<close>

theorem every_error_surfaces_as_plain_Error:
  assumes "selectCharities_try orc readCharities readProfiles = (Inl inner, e)"
  shows "(instanceof_Error inner \<longrightarrow>
            selectCharities orc readCharities readProfiles
              = (Inl (Error (''Charity selection failed: '' @ message inner)), e))
         \<and> (\<not> instanceof_Error inner \<longrightarrow>
            selectCharities orc readCharities readProfiles
              = (Inl (Error ''Charity selection failed: Unknown error''), e))"
  using assms by (simp add: selectCharities_def)

theorem every_error_surfaces_as_plain_Error_witness:
  "selectCharities_try first_choices (Inr all_state_charities) (Inr [profile_with_pets])
     = (Inl (Error ''Insufficient total charities: need 12, have 5 (0 national + 5 state)''),
        \<lparr>draws = 1, shuffles = 0\<rparr>)
   \<and> selectCharities first_choices (Inr all_state_charities) (Inr [profile_with_pets])
     = (Inl (Error (''Charity selection failed: ''
              @ message (Error ''Insufficient total charities: need 12, have 5 (0 national + 5 state)''))),
        \<lparr>draws = 1, shuffles = 0\<rparr>)
   \<and> selectCharities_try first_choices (Inr boundary_charities) (Inr [corrupted_profile])
     = (Inl (Error ''Failed to parse user profile: Profile missing required fields (id, name, state)''),
        no_effects)
   \<and> selectCharities first_choices (Inr boundary_charities) (Inr [corrupted_profile])
     = (Inl (Error (''Charity selection failed: ''
              @ message (Error ''Failed to parse user profile: Profile missing required fields (id, name, state)''))),
        no_effects)
   \<and> selectCharities_try first_choices (Inr duplicate_id_charities) (Inr [profile_with_pets])
     = (Inl (Error ''Selection count mismatch: expected 12, got 11''),
        \<lparr>draws = 2, shuffles = 4\<rparr>)
   \<and> selectCharities first_choices (Inr duplicate_id_charities) (Inr [profile_with_pets])
     = (Inl (Error (''Charity selection failed: ''
              @ message (Error ''Selection count mismatch: expected 12, got 11''))),
        \<lparr>draws = 2, shuffles = 4\<rparr>)"
proof -
  have p: "selectCharities_try first_choices (Inr boundary_charities) (Inr [corrupted_profile])
     = (Inl (Error ''Failed to parse user profile: Profile missing required fields (id, name, state)''),
        no_effects)"
    by (simp add: selectCharities_try_def parse_corrupted_profile)
  have i: "instanceof_Error (Error m)" for m by simp
  note sup = every_error_surfaces_as_plain_Error[OF all_state_try, THEN conjunct1, THEN mp,
      OF i]
  note prof = every_error_surfaces_as_plain_Error[OF p, THEN conjunct1, THEN mp, OF i]
  note inv = every_error_surfaces_as_plain_Error[OF duplicate_ids_try, THEN conjunct1,
      THEN mp, OF i]
  show ?thesis
    by (intro conjI all_state_try sup p prof duplicate_ids_try inv)
qed

end
